theory Spec2Isabelle
  imports Complex_Main "HOL-Library.Log_Nat"
begin

section \<open>Geometry value types and the accumulator\<close>

text \<open>
  \<^verbatim>\<open>CartesianCoordinate3D<T>\<close> is constructed as \<open>(z, y, x)\<close> and read with
  \<^verbatim>\<open>.z()\<close>, \<^verbatim>\<open>.y()\<close>, \<^verbatim>\<open>.x()\<close>.  The C++ \<^verbatim>\<open>float\<close> and \<^verbatim>\<open>double\<close> values are
  embedded as reals.  The arithmetic of the function itself (source lines 53 to 196) is
  embedded as the mathematical operations, with no rounding, no overflow, no infinities and
  no NaN, and the literals \<^verbatim>\<open>1.E-5F\<close>, \<^verbatim>\<open>.9999F\<close> and \<^verbatim>\<open>1000000.F\<close> are taken at their decimal
  values.  The addition inside \<^verbatim>\<open>round\<close> is the exception: there the rounding of the sum to
  binary32 can change the integer that is returned, and with it the start voxel, so it is
  embedded with its rounding.  Voxel indices are C++ \<^verbatim>\<open>int\<close>; they are embedded as
  unbounded integers (signed overflow is undefined behaviour in C++ and is not modelled).
\<close>

datatype 'a CartesianCoordinate3D =
  CartesianCoordinate3D (z_of: 'a) (y_of: 'a) (x_of: 'a)

text \<open>
  Modelled from the spec: the coordinate classes (\<^verbatim>\<open>stir/CartesianCoordinate3D.h\<close>) are not
  among the sources.  The spec gives them component-wise arithmetic; \<^verbatim>\<open>norm\<close> is the Euclidean
  length.
\<close>

definition coord_minus ::
  "real CartesianCoordinate3D \<Rightarrow> real CartesianCoordinate3D \<Rightarrow> real CartesianCoordinate3D" where
  "coord_minus p q =
     CartesianCoordinate3D (z_of p - z_of q) (y_of p - y_of q) (x_of p - x_of q)"

definition coord_times ::
  "real CartesianCoordinate3D \<Rightarrow> real CartesianCoordinate3D \<Rightarrow> real CartesianCoordinate3D" where
  "coord_times p q =
     CartesianCoordinate3D (z_of p * z_of q) (y_of p * y_of q) (x_of p * x_of q)"

definition coord_norm :: "real CartesianCoordinate3D \<Rightarrow> real" where
  "coord_norm p = sqrt (z_of p * z_of p + y_of p * y_of p + x_of p * x_of p)"

text \<open>
  The binary32 value nearest to a real, a tie going to the value with the even
  significand; this is the rounding of a C++ \<^verbatim>\<open>float\<close> operation.  For \<open>x\<close> in the binade
  from \<open>2\<^sup>e\<close> up to \<open>2\<^sup>e\<^sup>+\<^sup>1\<close> the binary32 values are the multiples of \<open>2\<^sup>e\<^sup>-\<^sup>2\<^sup>3\<close>; below the
  smallest normal binade, \<open>e = -126\<close>, the spacing stays that of this binade.  Results
  beyond the largest binary32 value, which the machine turns into infinities, are not
  modelled.
\<close>

definition round_to_even :: "real \<Rightarrow> int" where
  "round_to_even y =
     (if y - of_int \<lfloor>y\<rfloor> < 1/2 then \<lfloor>y\<rfloor>
      else if 1/2 < y - of_int \<lfloor>y\<rfloor> then \<lfloor>y\<rfloor> + 1
      else if even \<lfloor>y\<rfloor> then \<lfloor>y\<rfloor> else \<lfloor>y\<rfloor> + 1)"

definition binary32_exponent :: "real \<Rightarrow> int" where
  "binary32_exponent x =
     max (- 126)
       (if 1 \<le> \<bar>x\<bar> then int (floorlog 2 (nat \<lfloor>\<bar>x\<bar>\<rfloor>)) - 1
        else - int (floorlog 2 (nat (\<lceil>1 / \<bar>x\<bar>\<rceil> - 1))))"

definition binary32 :: "real \<Rightarrow> real" where
  "binary32 x =
     (if x = 0 then 0
      else of_int (round_to_even (x / 2 powi (binary32_exponent x - 23)))
             * 2 powi (binary32_exponent x - 23))"

text \<open>
  Modelled from the spec: \<^verbatim>\<open>stir/round.h\<close> is not among the sources; the spec only says that
  coordinates are rounded.  STIR's \<^verbatim>\<open>round\<close> of a \<^verbatim>\<open>float\<close> is
  \<^verbatim>\<open>static_cast<int>(x + 0.5F)\<close> for \<^verbatim>\<open>x >= 0\<close> and \<^verbatim>\<open>-static_cast<int>(-x + 0.5F)\<close>
  otherwise: it adds one half to the magnitude, in binary32, and truncates.  (Truncation of
  a non-negative value is its floor.)  When the sum is a binary32 value this is the nearest
  integer, with halves going away from zero.  When it is not, the rounded sum can reach the
  next integer: \<^verbatim>\<open>round\<close> takes \<open>0.5 - 2\<^sup>-\<^sup>2\<^sup>5\<close> to 1 and 8388609 to 8388610.
\<close>

definition stir_round :: "real \<Rightarrow> int" where
  "stir_round v =
     (if v \<ge> 0 then \<lfloor>binary32 (v + 1/2)\<rfloor> else - \<lfloor>binary32 (- v + 1/2)\<rfloor>)"

text \<open>
  \<^verbatim>\<open>ProjMatrixElemsForOneBin\<close>: an ordered sequence of (voxel index, weight) pairs;
  \<^verbatim>\<open>push_back\<close> appends at the end.  \<^verbatim>\<open>reserve\<close> only changes capacity and is not modelled.
\<close>

type_synonym ProjMatrixElemsForOneBin = "(int CartesianCoordinate3D \<times> real) list"

text \<open>A failing \<^verbatim>\<open>assert\<close> aborts the program; the error carries the source line.\<close>

datatype error = Assertion_failed nat

section \<open>The constants of one call (source lines 53 to 125)\<close>

record ray =
  difference :: "real CartesianCoordinate3D"
  d12 :: real
  sign_x :: int
  sign_y :: int
  sign_z :: int
  zero_diff_in_x :: bool
  zero_diff_in_y :: bool
  zero_diff_in_z :: bool
  inc_x :: real
  inc_y :: real
  inc_z :: real
  xmin :: real
  ymin :: real
  zmin :: real
  xmax :: real
  ymax :: real
  zmax :: real
  axend :: real
  ayend :: real
  azend :: real
  amax :: real

definition small_difference :: real where
  "small_difference = 1 / 100000"

definition ray_constants ::
  "real CartesianCoordinate3D \<Rightarrow> real CartesianCoordinate3D \<Rightarrow> real CartesianCoordinate3D \<Rightarrow>
   real \<Rightarrow> ray" where
  "ray_constants start_point stop_point voxel_size normalisation_constant =
    (let difference = coord_minus stop_point start_point;
         d12 = coord_norm (coord_times difference voxel_size) * normalisation_constant;
         sign_x = (if x_of difference \<ge> 0 then 1 else - 1 :: int);
         sign_y = (if y_of difference \<ge> 0 then 1 else - 1 :: int);
         sign_z = (if z_of difference \<ge> 0 then 1 else - 1 :: int);
         zero_diff_in_x = (\<bar>x_of difference\<bar> \<le> small_difference);
         zero_diff_in_y = (\<bar>y_of difference\<bar> \<le> small_difference);
         zero_diff_in_z = (\<bar>z_of difference\<bar> \<le> small_difference);
         inc_x = (if zero_diff_in_x then d12 * 1000000 else d12 / \<bar>x_of difference\<bar>);
         inc_y = (if zero_diff_in_y then d12 * 1000000 else d12 / \<bar>y_of difference\<bar>);
         inc_z = (if zero_diff_in_z then d12 * 1000000 else d12 / \<bar>z_of difference\<bar>);
         xmin = of_int (stir_round (x_of start_point)) - of_int sign_x * (1/2);
         ymin = of_int (stir_round (y_of start_point)) - of_int sign_y * (1/2);
         zmin = of_int (stir_round (z_of start_point)) - of_int sign_z * (1/2);
         xmax = of_int (stir_round (x_of stop_point)) + of_int sign_x * (1/2);
         ymax = of_int (stir_round (y_of stop_point)) + of_int sign_y * (1/2);
         zmax = of_int (stir_round (z_of stop_point)) + of_int sign_z * (1/2);
         axend = (if zero_diff_in_x then d12 * 1000000
                  else (xmax - x_of start_point) * inc_x * of_int sign_x * (9999/10000));
         ayend = (if zero_diff_in_y then d12 * 1000000
                  else (ymax - y_of start_point) * inc_y * of_int sign_y * (9999/10000));
         azend = (if zero_diff_in_z then d12 * 1000000
                  else (zmax - z_of start_point) * inc_z * of_int sign_z * (9999/10000));
         amax = min axend (min ayend azend)
     in \<lparr> difference = difference, d12 = d12,
          sign_x = sign_x, sign_y = sign_y, sign_z = sign_z,
          zero_diff_in_x = zero_diff_in_x, zero_diff_in_y = zero_diff_in_y,
          zero_diff_in_z = zero_diff_in_z,
          inc_x = inc_x, inc_y = inc_y, inc_z = inc_z,
          xmin = xmin, ymin = ymin, zmin = zmin,
          xmax = xmax, ymax = ymax, zmax = zmax,
          axend = axend, ayend = ayend, azend = azend, amax = amax \<rparr>)"

section \<open>The state at loop entry (source lines 133 to 164)\<close>

text \<open>The result is \<open>(current_voxel, a, ax, ay, az)\<close> as the loop first sees them.\<close>

definition initial_state ::
  "ray \<Rightarrow> real CartesianCoordinate3D \<Rightarrow> int CartesianCoordinate3D \<times> real \<times> real \<times> real \<times> real" where
  "initial_state r start_point =
    (let current_voxel = CartesianCoordinate3D
           (stir_round (zmin r + of_int (sign_z r) * (1/2)))
           (stir_round (ymin r + of_int (sign_y r) * (1/2)))
           (stir_round (xmin r + of_int (sign_x r) * (1/2)));
         az = (if zero_diff_in_z r then - inc_z r
               else (zmin r - z_of start_point) * inc_z r * of_int (sign_z r));
         ax = (if zero_diff_in_x r then - inc_x r
               else (xmin r - x_of start_point) * inc_x r * of_int (sign_x r));
         ay = (if zero_diff_in_y r then - inc_y r
               else (ymin r - y_of start_point) * inc_y r * of_int (sign_y r));
         a = max ax (max ay az);
         ax = (if zero_diff_in_x r then axend r else ax + inc_x r);
         ay = (if zero_diff_in_y r then ayend r else ay + inc_y r);
         az = (if zero_diff_in_z r then azend r else az + inc_z r)
     in (current_voxel, a, ax, ay, az))"

section \<open>The traversal loop (source lines 173 to 196)\<close>

text \<open>
  The loop need not terminate for arbitrary constants, so it is a partial function: \<open>None\<close>
  means that it runs forever.  On exit it returns the accumulator together with the final
  values of the loop variables.
\<close>

partial_function (option) trace_loop ::
  "ray \<Rightarrow> ProjMatrixElemsForOneBin \<Rightarrow> int CartesianCoordinate3D \<Rightarrow> real \<Rightarrow> real \<Rightarrow> real \<Rightarrow> real \<Rightarrow>
   (ProjMatrixElemsForOneBin \<times> int CartesianCoordinate3D \<times> real \<times> real \<times> real \<times> real) option" where
  "trace_loop r lor current_voxel a ax ay az =
    (if a < amax r then
       (if ax < ay then
          (if ax < az then
             trace_loop r (lor @ [(current_voxel, ax - a)])
               (CartesianCoordinate3D (z_of current_voxel) (y_of current_voxel)
                  (x_of current_voxel + sign_x r))
               ax (ax + inc_x r) ay az
           else
             trace_loop r (lor @ [(current_voxel, az - a)])
               (CartesianCoordinate3D (z_of current_voxel + sign_z r) (y_of current_voxel)
                  (x_of current_voxel))
               az ax ay (az + inc_z r))
        else if ay < az then
          trace_loop r (lor @ [(current_voxel, ay - a)])
            (CartesianCoordinate3D (z_of current_voxel) (y_of current_voxel + sign_y r)
               (x_of current_voxel))
            ay ax (ay + inc_y r) az
        else
          trace_loop r (lor @ [(current_voxel, az - a)])
            (CartesianCoordinate3D (z_of current_voxel + sign_z r) (y_of current_voxel)
               (x_of current_voxel))
            az ax ay (az + inc_z r))
     else Some (lor, current_voxel, a, ax, ay, az))"

section \<open>The function\<close>

text \<open>
  \<open>NDEBUG\<close> is the build switch of \<^verbatim>\<open>assert\<close>: when it is set the assertions are compiled
  out.  The assertions are checked in source order (lines 128 to 130, then 167 to 169).
\<close>

definition assert_lines_128_130 :: "ray \<Rightarrow> error option" where
  "assert_lines_128_130 r =
    (if \<not> (\<bar>x_of (difference r)\<bar> > small_difference \<or> axend r > amax r)
       then Some (Assertion_failed 128)
     else if \<not> (\<bar>y_of (difference r)\<bar> > small_difference \<or> ayend r > amax r)
       then Some (Assertion_failed 129)
     else if \<not> (\<bar>z_of (difference r)\<bar> > small_difference \<or> azend r > amax r)
       then Some (Assertion_failed 130)
     else None)"

definition assert_lines_167_169 :: "ray \<Rightarrow> real \<Rightarrow> real \<Rightarrow> real \<Rightarrow> error option" where
  "assert_lines_167_169 r ax ay az =
    (if \<not> (\<not> zero_diff_in_x r \<or> ax > amax r) then Some (Assertion_failed 167)
     else if \<not> (\<not> zero_diff_in_y r \<or> ay > amax r) then Some (Assertion_failed 168)
     else if \<not> (\<not> zero_diff_in_z r \<or> az > amax r) then Some (Assertion_failed 169)
     else None)"

definition RayTraceVoxelsOnCartesianGrid ::
  "bool \<Rightarrow> ProjMatrixElemsForOneBin \<Rightarrow> real CartesianCoordinate3D \<Rightarrow> real CartesianCoordinate3D \<Rightarrow>
   real CartesianCoordinate3D \<Rightarrow> real \<Rightarrow> (error + ProjMatrixElemsForOneBin) option" where
  "RayTraceVoxelsOnCartesianGrid NDEBUG lor start_point stop_point voxel_size
       normalisation_constant =
    (let r = ray_constants start_point stop_point voxel_size normalisation_constant in
     case (if NDEBUG then None else assert_lines_128_130 r) of
       Some e \<Rightarrow> Some (Inl e)
     | None \<Rightarrow>
        (case initial_state r start_point of
           (current_voxel, a, ax, ay, az) \<Rightarrow>
             (case (if NDEBUG then None else assert_lines_167_169 r ax ay az) of
                Some e \<Rightarrow> Some (Inl e)
              | None \<Rightarrow>
                 (case trace_loop r lor current_voxel a ax ay az of
                    None \<Rightarrow> None
                  | Some s \<Rightarrow> Some (Inr (fst s))))))"

section \<open>Notions used to state the properties\<close>

text \<open>Two voxel indices are face-adjacent when they differ by one unit along one axis only.\<close>

definition face_adjacent :: "int CartesianCoordinate3D \<Rightarrow> int CartesianCoordinate3D \<Rightarrow> bool" where
  "face_adjacent p q \<longleftrightarrow>
     (\<bar>z_of p - z_of q\<bar> = 1 \<and> y_of p = y_of q \<and> x_of p = x_of q) \<or>
     (z_of p = z_of q \<and> \<bar>y_of p - y_of q\<bar> = 1 \<and> x_of p = x_of q) \<or>
     (z_of p = z_of q \<and> y_of p = y_of q \<and> \<bar>x_of p - x_of q\<bar> = 1)"

text \<open>
  The number of steps of size \<open>inc\<close> that a crossing value \<open>c\<close> is below the bound \<open>A\<close>;
  the variant of the loop is built from it.
\<close>

definition steps_left :: "real \<Rightarrow> real \<Rightarrow> real \<Rightarrow> nat" where
  "steps_left A inc c = nat \<lceil>(A - c) / inc\<rceil>"

definition loop_variant :: "ray \<Rightarrow> real \<Rightarrow> real \<Rightarrow> real \<Rightarrow> real \<Rightarrow> nat" where
  "loop_variant r a ax ay az =
     (if a < amax r then 1 else 0) + steps_left (amax r) (inc_x r) ax
       + steps_left (amax r) (inc_y r) ay + steps_left (amax r) (inc_z r) az"



text \<open>The components of the state at loop entry.\<close>

definition entry_voxel :: "ray \<Rightarrow> real CartesianCoordinate3D \<Rightarrow> int CartesianCoordinate3D" where
  "entry_voxel r p = fst (initial_state r p)"

definition entry_a :: "ray \<Rightarrow> real CartesianCoordinate3D \<Rightarrow> real" where
  "entry_a r p = fst (snd (initial_state r p))"

definition entry_ax :: "ray \<Rightarrow> real CartesianCoordinate3D \<Rightarrow> real" where
  "entry_ax r p = fst (snd (snd (initial_state r p)))"

definition entry_ay :: "ray \<Rightarrow> real CartesianCoordinate3D \<Rightarrow> real" where
  "entry_ay r p = fst (snd (snd (snd (initial_state r p))))"

definition entry_az :: "ray \<Rightarrow> real CartesianCoordinate3D \<Rightarrow> real" where
  "entry_az r p = snd (snd (snd (snd (initial_state r p))))"

text \<open>
  A coordinate is rounded exactly when \<^verbatim>\<open>round\<close> returns an integer nearest to it, and
  returns that integer again when applied to it; a point is rounded exactly when its three
  coordinates are.  The voxel that \<^verbatim>\<open>round\<close> assigns to such a point contains the point.
\<close>

definition rounds_exactly :: "real \<Rightarrow> bool" where
  "rounds_exactly v \<longleftrightarrow>
     \<bar>of_int (stir_round v) - v\<bar> \<le> 1/2 \<and> stir_round (of_int (stir_round v)) = stir_round v"

definition exactly_rounded :: "real CartesianCoordinate3D \<Rightarrow> bool" where
  "exactly_rounded p \<longleftrightarrow>
     rounds_exactly (z_of p) \<and> rounds_exactly (y_of p) \<and> rounds_exactly (x_of p)"



section \<open>Reading the constants back\<close>

text \<open>Each constant of a call, as the source line that defines it.\<close>

lemma ray_difference:
  "difference (ray_constants s t v n) =
     coord_minus t s"
  by (simp only: ray_constants_def Let_def ray.select_convs)

lemma ray_d12:
  "d12 (ray_constants s t v n) =
     coord_norm (coord_times (coord_minus t s) v) * n"
  by (simp only: ray_constants_def Let_def ray.select_convs)

lemma ray_sign_x:
  "sign_x (ray_constants s t v n) =
     (if x_of (coord_minus t s) \<ge> 0 then 1 else - 1)"
  by (simp only: ray_constants_def Let_def ray.select_convs)

lemma ray_sign_y:
  "sign_y (ray_constants s t v n) =
     (if y_of (coord_minus t s) \<ge> 0 then 1 else - 1)"
  by (simp only: ray_constants_def Let_def ray.select_convs)

lemma ray_sign_z:
  "sign_z (ray_constants s t v n) =
     (if z_of (coord_minus t s) \<ge> 0 then 1 else - 1)"
  by (simp only: ray_constants_def Let_def ray.select_convs)

lemma ray_zero_diff_in_x:
  "zero_diff_in_x (ray_constants s t v n) =
     (\<bar>x_of (coord_minus t s)\<bar> \<le> small_difference)"
  by (simp only: ray_constants_def Let_def ray.select_convs)

lemma ray_zero_diff_in_y:
  "zero_diff_in_y (ray_constants s t v n) =
     (\<bar>y_of (coord_minus t s)\<bar> \<le> small_difference)"
  by (simp only: ray_constants_def Let_def ray.select_convs)

lemma ray_zero_diff_in_z:
  "zero_diff_in_z (ray_constants s t v n) =
     (\<bar>z_of (coord_minus t s)\<bar> \<le> small_difference)"
  by (simp only: ray_constants_def Let_def ray.select_convs)

lemma ray_inc_x:
  "inc_x (ray_constants s t v n) =
     (if zero_diff_in_x (ray_constants s t v n) then d12 (ray_constants s t v n) * 1000000
      else d12 (ray_constants s t v n) / \<bar>x_of (coord_minus t s)\<bar>)"
  by (simp only: ray_constants_def Let_def ray.select_convs)

lemma ray_inc_y:
  "inc_y (ray_constants s t v n) =
     (if zero_diff_in_y (ray_constants s t v n) then d12 (ray_constants s t v n) * 1000000
      else d12 (ray_constants s t v n) / \<bar>y_of (coord_minus t s)\<bar>)"
  by (simp only: ray_constants_def Let_def ray.select_convs)

lemma ray_inc_z:
  "inc_z (ray_constants s t v n) =
     (if zero_diff_in_z (ray_constants s t v n) then d12 (ray_constants s t v n) * 1000000
      else d12 (ray_constants s t v n) / \<bar>z_of (coord_minus t s)\<bar>)"
  by (simp only: ray_constants_def Let_def ray.select_convs)

lemma ray_xmin:
  "xmin (ray_constants s t v n) =
     of_int (stir_round (x_of s)) - of_int (sign_x (ray_constants s t v n)) * (1/2)"
  by (simp only: ray_constants_def Let_def ray.select_convs)

lemma ray_ymin:
  "ymin (ray_constants s t v n) =
     of_int (stir_round (y_of s)) - of_int (sign_y (ray_constants s t v n)) * (1/2)"
  by (simp only: ray_constants_def Let_def ray.select_convs)

lemma ray_zmin:
  "zmin (ray_constants s t v n) =
     of_int (stir_round (z_of s)) - of_int (sign_z (ray_constants s t v n)) * (1/2)"
  by (simp only: ray_constants_def Let_def ray.select_convs)

lemma ray_xmax:
  "xmax (ray_constants s t v n) =
     of_int (stir_round (x_of t)) + of_int (sign_x (ray_constants s t v n)) * (1/2)"
  by (simp only: ray_constants_def Let_def ray.select_convs)

lemma ray_ymax:
  "ymax (ray_constants s t v n) =
     of_int (stir_round (y_of t)) + of_int (sign_y (ray_constants s t v n)) * (1/2)"
  by (simp only: ray_constants_def Let_def ray.select_convs)

lemma ray_zmax:
  "zmax (ray_constants s t v n) =
     of_int (stir_round (z_of t)) + of_int (sign_z (ray_constants s t v n)) * (1/2)"
  by (simp only: ray_constants_def Let_def ray.select_convs)

lemma ray_axend:
  "axend (ray_constants s t v n) =
     (if zero_diff_in_x (ray_constants s t v n) then d12 (ray_constants s t v n) * 1000000
      else (xmax (ray_constants s t v n) - x_of s) * inc_x (ray_constants s t v n) * of_int (sign_x (ray_constants s t v n)) * (9999/10000))"
  by (simp only: ray_constants_def Let_def ray.select_convs)

lemma ray_ayend:
  "ayend (ray_constants s t v n) =
     (if zero_diff_in_y (ray_constants s t v n) then d12 (ray_constants s t v n) * 1000000
      else (ymax (ray_constants s t v n) - y_of s) * inc_y (ray_constants s t v n) * of_int (sign_y (ray_constants s t v n)) * (9999/10000))"
  by (simp only: ray_constants_def Let_def ray.select_convs)

lemma ray_azend:
  "azend (ray_constants s t v n) =
     (if zero_diff_in_z (ray_constants s t v n) then d12 (ray_constants s t v n) * 1000000
      else (zmax (ray_constants s t v n) - z_of s) * inc_z (ray_constants s t v n) * of_int (sign_z (ray_constants s t v n)) * (9999/10000))"
  by (simp only: ray_constants_def Let_def ray.select_convs)

lemma ray_amax:
  "amax (ray_constants s t v n) =
     min (axend (ray_constants s t v n)) (min (ayend (ray_constants s t v n)) (azend (ray_constants s t v n)))"
  by (simp only: ray_constants_def Let_def ray.select_convs)

lemmas ray_simps =
  ray_difference ray_d12 ray_sign_x ray_sign_y ray_sign_z
  ray_zero_diff_in_x ray_zero_diff_in_y ray_zero_diff_in_z ray_inc_x ray_inc_y ray_inc_z
  ray_xmin ray_ymin ray_zmin ray_xmax ray_ymax ray_zmax ray_axend ray_ayend ray_azend ray_amax

section \<open>Induction over a run of the loop\<close>

text \<open>
  Computation induction for a run that returns: the loop either stops, or takes one of its
  three kinds of step (the source has two textual copies of the step through an xy-plane)
  and continues with a run that returns the same result.
\<close>

lemma trace_loop_induct [consumes 1, case_names stop step_x step_y step_z]:
  assumes run: "trace_loop r lor v a ax ay az = Some res"
    and stop: "\<And>lor v a ax ay az. \<not> a < amax r \<Longrightarrow> P lor v a ax ay az (lor, v, a, ax, ay, az)"
    and step_x: "\<And>lor v a ax ay az res. a < amax r \<Longrightarrow> ax < ay \<Longrightarrow> ax < az \<Longrightarrow>
        trace_loop r (lor @ [(v, ax - a)])
          (CartesianCoordinate3D (z_of v) (y_of v) (x_of v + sign_x r))
          ax (ax + inc_x r) ay az = Some res \<Longrightarrow>
        P (lor @ [(v, ax - a)]) (CartesianCoordinate3D (z_of v) (y_of v) (x_of v + sign_x r))
          ax (ax + inc_x r) ay az res \<Longrightarrow>
        P lor v a ax ay az res"
    and step_y: "\<And>lor v a ax ay az res. a < amax r \<Longrightarrow> \<not> ax < ay \<Longrightarrow> ay < az \<Longrightarrow>
        trace_loop r (lor @ [(v, ay - a)])
          (CartesianCoordinate3D (z_of v) (y_of v + sign_y r) (x_of v))
          ay ax (ay + inc_y r) az = Some res \<Longrightarrow>
        P (lor @ [(v, ay - a)]) (CartesianCoordinate3D (z_of v) (y_of v + sign_y r) (x_of v))
          ay ax (ay + inc_y r) az res \<Longrightarrow>
        P lor v a ax ay az res"
    and step_z: "\<And>lor v a ax ay az res. a < amax r \<Longrightarrow>
        (ax < ay \<and> \<not> ax < az) \<or> (\<not> ax < ay \<and> \<not> ay < az) \<Longrightarrow>
        trace_loop r (lor @ [(v, az - a)])
          (CartesianCoordinate3D (z_of v + sign_z r) (y_of v) (x_of v))
          az ax ay (az + inc_z r) = Some res \<Longrightarrow>
        P (lor @ [(v, az - a)]) (CartesianCoordinate3D (z_of v + sign_z r) (y_of v) (x_of v))
          az ax ay (az + inc_z r) res \<Longrightarrow>
        P lor v a ax ay az res"
  shows "P lor v a ax ay az res"
proof -
  let ?Q = "\<lambda>r' lor v a ax ay az res.
     r' = r \<longrightarrow> trace_loop r lor v a ax ay az = Some res \<and> P lor v a ax ay az res"
  from run have "?Q r lor v a ax ay az res"
  proof (rule trace_loop.raw_induct [where P = ?Q, rotated])
    fix f r' lor v a ax ay az res
    assume IH: "\<And>r' lor v a ax ay az res. f r' lor v a ax ay az = Some res \<Longrightarrow>
                  ?Q r' lor v a ax ay az res"
      and body: "(if a < amax r' then
       (if ax < ay then
          (if ax < az then
             f r' (lor @ [(v, ax - a)])
               (CartesianCoordinate3D (z_of v) (y_of v) (x_of v + sign_x r'))
               ax (ax + inc_x r') ay az
           else
             f r' (lor @ [(v, az - a)])
               (CartesianCoordinate3D (z_of v + sign_z r') (y_of v) (x_of v))
               az ax ay (az + inc_z r'))
        else if ay < az then
          f r' (lor @ [(v, ay - a)])
            (CartesianCoordinate3D (z_of v) (y_of v + sign_y r') (x_of v))
            ay ax (ay + inc_y r') az
        else
          f r' (lor @ [(v, az - a)])
            (CartesianCoordinate3D (z_of v + sign_z r') (y_of v) (x_of v))
            az ax ay (az + inc_z r'))
     else Some (lor, v, a, ax, ay, az)) = Some res"
    show "?Q r' lor v a ax ay az res"
    proof (intro impI)
      assume eq: "r' = r"
      show "trace_loop r lor v a ax ay az = Some res \<and> P lor v a ax ay az res"
      proof (cases "a < amax r")
        case False
        with body eq have "res = (lor, v, a, ax, ay, az)" by simp
        with False stop[OF False] show ?thesis
          by (subst trace_loop.simps) simp
      next
        case True
        consider (x) "ax < ay" "ax < az" | (y) "\<not> ax < ay" "ay < az"
          | (z) "(ax < ay \<and> \<not> ax < az) \<or> (\<not> ax < ay \<and> \<not> ay < az)"
          by blast
        then show ?thesis
        proof cases
          case x
          with body True eq have "f r (lor @ [(v, ax - a)])
             (CartesianCoordinate3D (z_of v) (y_of v) (x_of v + sign_x r)) ax (ax + inc_x r) ay az = Some res"
            by simp
          from IH[OF this] have *: "trace_loop r (lor @ [(v, ax - a)])
             (CartesianCoordinate3D (z_of v) (y_of v) (x_of v + sign_x r)) ax (ax + inc_x r) ay az = Some res"
            and **: "P (lor @ [(v, ax - a)])
             (CartesianCoordinate3D (z_of v) (y_of v) (x_of v + sign_x r)) ax (ax + inc_x r) ay az res"
            by blast+
          from * True x have "trace_loop r lor v a ax ay az = Some res"
            by (subst trace_loop.simps) simp
          with step_x[OF True x * **] show ?thesis by blast
        next
          case y
          with body True eq have "f r (lor @ [(v, ay - a)])
             (CartesianCoordinate3D (z_of v) (y_of v + sign_y r) (x_of v)) ay ax (ay + inc_y r) az = Some res"
            by simp
          from IH[OF this] have *: "trace_loop r (lor @ [(v, ay - a)])
             (CartesianCoordinate3D (z_of v) (y_of v + sign_y r) (x_of v)) ay ax (ay + inc_y r) az = Some res"
            and **: "P (lor @ [(v, ay - a)])
             (CartesianCoordinate3D (z_of v) (y_of v + sign_y r) (x_of v)) ay ax (ay + inc_y r) az res"
            by blast+
          from * True y have "trace_loop r lor v a ax ay az = Some res"
            by (subst trace_loop.simps) simp
          with step_y[OF True y * **] show ?thesis by blast
        next
          case z
          with body True eq have "f r (lor @ [(v, az - a)])
             (CartesianCoordinate3D (z_of v + sign_z r) (y_of v) (x_of v)) az ax ay (az + inc_z r) = Some res"
            by (auto split: if_splits)
          from IH[OF this] have *: "trace_loop r (lor @ [(v, az - a)])
             (CartesianCoordinate3D (z_of v + sign_z r) (y_of v) (x_of v)) az ax ay (az + inc_z r) = Some res"
            and **: "P (lor @ [(v, az - a)])
             (CartesianCoordinate3D (z_of v + sign_z r) (y_of v) (x_of v)) az ax ay (az + inc_z r) res"
            by blast+
          from * True z have "trace_loop r lor v a ax ay az = Some res"
            by (subst trace_loop.simps) auto
          with step_z[OF True z * **] show ?thesis by blast
        qed
      qed
    qed
  qed
  then show ?thesis by blast
qed

lemma trace_loop_appends:
  assumes "trace_loop r lor v a ax ay az = Some res"
  shows "\<exists>es. fst res = lor @ es"
  using assms
  by (induction rule: trace_loop_induct) auto


section \<open>Rounding\<close>

text \<open>Evaluating \<^verbatim>\<open>round\<close> on a numeral.\<close>

lemmas round_simps =
  stir_round_def binary32_def binary32_exponent_def round_to_even_def compute_floorlog

lemma binary32_values:
  "binary32 (1/10) = 13421773/134217728" "binary32 (1/3) = 11184811/33554432"
  "binary32 16777217 = 16777216" "binary32 (1 - 1/2^25) = 1" "binary32 (3/2) = 3/2"
  "binary32 (- 1/10) = - 13421773/134217728"
  by (simp_all add: binary32_def binary32_exponent_def round_to_even_def compute_floorlog)

lemma stir_round_values:
  "stir_round 0 = 0" "stir_round (1/2) = 1" "stir_round (- 1/2) = - 1"
  "stir_round (49/100) = 0" "stir_round (7/2) = 4" "stir_round (- 5/2) = - 3"
  by (simp_all add: round_simps)

lemma stir_round_not_nearest:
  "stir_round (1/2 - 1/2^25) = 1" "stir_round 8388609 = 8388610"
  "\<not> rounds_exactly (1/2 - 1/2^25)" "\<not> rounds_exactly 8388609"
  by (simp_all add: rounds_exactly_def round_simps)

lemma exactly_rounded_z: "exactly_rounded p \<Longrightarrow> rounds_exactly (z_of p)"
  by (simp add: exactly_rounded_def)

lemma exactly_rounded_y: "exactly_rounded p \<Longrightarrow> rounds_exactly (y_of p)"
  by (simp add: exactly_rounded_def)

lemma exactly_rounded_x: "exactly_rounded p \<Longrightarrow> rounds_exactly (x_of p)"
  by (simp add: exactly_rounded_def)

lemma stir_round_near: "rounds_exactly v \<Longrightarrow> \<bar>of_int (stir_round v) - v\<bar> \<le> 1/2"
  by (simp add: rounds_exactly_def)

lemma stir_round_again:
  "rounds_exactly v \<Longrightarrow> stir_round (of_int (stir_round v)) = stir_round v"
  by (simp add: rounds_exactly_def)

lemma stir_round_mono:
  assumes "rounds_exactly v" "rounds_exactly w" "v \<le> w"
  shows "stir_round v \<le> stir_round w"
proof (rule ccontr)
  assume "\<not> stir_round v \<le> stir_round w"
  then have "stir_round w + 1 \<le> stir_round v" by simp
  then have less: "of_int (stir_round w) + 1 \<le> (of_int (stir_round v) :: real)" by linarith
  from stir_round_near [OF assms(1)] stir_round_near [OF assms(2)] less assms(3)
  have "v = w" by linarith
  with \<open>\<not> stir_round v \<le> stir_round w\<close> show False by simp
qed

lemma entry_factor:
  fixes sg :: int and s :: real
  assumes "sg = 1 \<or> sg = - 1" and "rounds_exactly s"
  shows "- 1 \<le> (of_int (stir_round s) - of_int sg * (1/2) - s) * of_int sg"
    and "(of_int (stir_round s) - of_int sg * (1/2) - s) * of_int sg \<le> 0"
  using assms(1) stir_round_near [OF assms(2)] by (auto simp: algebra_simps; linarith)+

lemma exit_factor:
  fixes sg :: int and s t :: real
  assumes "sg = (if 0 \<le> t - s then 1 else - 1)" and "rounds_exactly t"
  shows "\<bar>t - s\<bar> \<le> (of_int (stir_round t) + of_int sg * (1/2) - s) * of_int sg"
  using assms(1) stir_round_near [OF assms(2)]
  by (auto simp: algebra_simps split: if_splits; linarith)

section \<open>The entry state\<close>

lemma initial_state_entry:
  "initial_state r p = (entry_voxel r p, entry_a r p, entry_ax r p, entry_ay r p, entry_az r p)"
  by (simp add: entry_voxel_def entry_a_def entry_ax_def entry_ay_def entry_az_def)

lemma entry_voxel_eq:
  "entry_voxel r p = CartesianCoordinate3D
           (stir_round (zmin r + of_int (sign_z r) * (1/2)))
           (stir_round (ymin r + of_int (sign_y r) * (1/2)))
           (stir_round (xmin r + of_int (sign_x r) * (1/2)))"
  by (simp add: entry_voxel_def initial_state_def Let_def)

lemma entry_a_eq:
  "entry_a r p =
     max (if zero_diff_in_x r then - inc_x r
          else (xmin r - x_of p) * inc_x r * of_int (sign_x r))
      (max (if zero_diff_in_y r then - inc_y r
            else (ymin r - y_of p) * inc_y r * of_int (sign_y r))
           (if zero_diff_in_z r then - inc_z r
            else (zmin r - z_of p) * inc_z r * of_int (sign_z r)))"
  by (simp only: entry_a_def initial_state_def Let_def fst_conv snd_conv)

lemma entry_ax_eq:
  "entry_ax r p =
     (if zero_diff_in_x r then axend r
      else (xmin r - x_of p) * inc_x r * of_int (sign_x r) + inc_x r)"
  by (simp add: entry_ax_def initial_state_def Let_def)

lemma entry_ay_eq:
  "entry_ay r p =
     (if zero_diff_in_y r then ayend r
      else (ymin r - y_of p) * inc_y r * of_int (sign_y r) + inc_y r)"
  by (simp add: entry_ay_def initial_state_def Let_def)

lemma entry_az_eq:
  "entry_az r p =
     (if zero_diff_in_z r then azend r
      else (zmin r - z_of p) * inc_z r * of_int (sign_z r) + inc_z r)"
  by (simp add: entry_az_def initial_state_def Let_def)

text \<open>A successful call is a run of the loop from the entry state.\<close>

lemma RayTrace_success:
  assumes "RayTraceVoxelsOnCartesianGrid NDEBUG lor s t v n = Some (Inr lor')"
  obtains res where
    "trace_loop (ray_constants s t v n) lor (entry_voxel (ray_constants s t v n) s)
       (entry_a (ray_constants s t v n) s) (entry_ax (ray_constants s t v n) s)
       (entry_ay (ray_constants s t v n) s) (entry_az (ray_constants s t v n) s) = Some res"
    "fst res = lor'"
  using assms
  by (auto simp: RayTraceVoxelsOnCartesianGrid_def Let_def initial_state_entry
      split: option.splits if_splits)

lemma RayTrace_NDEBUG:
  "RayTraceVoxelsOnCartesianGrid True lor s t v n =
     map_option (\<lambda>res. Inr (fst res))
       (trace_loop (ray_constants s t v n) lor (entry_voxel (ray_constants s t v n) s)
       (entry_a (ray_constants s t v n) s) (entry_ax (ray_constants s t v n) s)
       (entry_ay (ray_constants s t v n) s) (entry_az (ray_constants s t v n) s))"
  by (auto simp: RayTraceVoxelsOnCartesianGrid_def Let_def initial_state_entry
      split: option.splits)

lemma entry_voxel_start:
  assumes "exactly_rounded s"
  shows "entry_voxel (ray_constants s t v n) s =
     CartesianCoordinate3D (stir_round (z_of s)) (stir_round (y_of s)) (stir_round (x_of s))"
  using assms
  by (simp add: entry_voxel_eq ray_xmin ray_ymin ray_zmin stir_round_again exactly_rounded_def)

section \<open>Facts about the constants, axis by axis\<close>

text \<open>
  The same facts hold for the three axes: the step direction is a unit, the increment has
  the sign of \<open>d12\<close>, a start point that is rounded exactly lies in the start voxel (so
  the first crossing is at most one increment behind it), and the last crossing lies beyond
  a stop point that is rounded exactly.
\<close>

lemma ray_sign_x_cases: "sign_x (ray_constants s t v n) = 1 \<or> sign_x (ray_constants s t v n) = - 1"
  by (simp add: ray_sign_x)

lemma ray_inc_x_pos: "0 < d12 (ray_constants s t v n) \<Longrightarrow> 0 < inc_x (ray_constants s t v n)"
  by (simp add: ray_inc_x ray_zero_diff_in_x small_difference_def)

lemma ray_inc_x_nonneg: "0 \<le> d12 (ray_constants s t v n) \<Longrightarrow> 0 \<le> inc_x (ray_constants s t v n)"
  by (simp add: ray_inc_x)

lemma ray_inc_x_nonpos: "d12 (ray_constants s t v n) \<le> 0 \<Longrightarrow> inc_x (ray_constants s t v n) \<le> 0"
  by (simp add: ray_inc_x mult_le_0_iff divide_le_0_iff)

lemma ray_entry_factor_x:
  assumes "exactly_rounded s"
  shows "- 1 \<le> (xmin (ray_constants s t v n) - x_of s) * of_int (sign_x (ray_constants s t v n))"
    and "(xmin (ray_constants s t v n) - x_of s) * of_int (sign_x (ray_constants s t v n)) \<le> 0"
  using entry_factor [OF ray_sign_x_cases [of s t v n] exactly_rounded_x [OF assms]]
  by (simp_all only: ray_xmin)

lemma ray_exit_factor_x:
  assumes "exactly_rounded t"
  shows "\<bar>x_of t - x_of s\<bar>
     \<le> (xmax (ray_constants s t v n) - x_of s) * of_int (sign_x (ray_constants s t v n))"
proof -
  have "sign_x (ray_constants s t v n) = (if 0 \<le> x_of t - x_of s then 1 else - 1)"
    by (simp add: ray_sign_x coord_minus_def)
  from exit_factor [OF this exactly_rounded_x [OF assms]] show ?thesis
    by (simp only: ray_xmax)
qed

lemma ray_first_x_nonpos:
  assumes d: "0 \<le> d12 (ray_constants s t v n)" and rs: "exactly_rounded s"
  shows "(if zero_diff_in_x (ray_constants s t v n) then - inc_x (ray_constants s t v n)
          else (xmin (ray_constants s t v n) - x_of s) * inc_x (ray_constants s t v n)
                 * of_int (sign_x (ray_constants s t v n))) \<le> 0"
proof -
  have "((xmin (ray_constants s t v n) - x_of s) * of_int (sign_x (ray_constants s t v n)))
          * inc_x (ray_constants s t v n) \<le> 0"
    by (rule mult_nonpos_nonneg [OF ray_entry_factor_x(2) [OF rs] ray_inc_x_nonneg [OF d]])
  with ray_inc_x_nonneg [OF d] show ?thesis by (simp add: mult_ac)
qed

lemma ray_axend_reaches:
  assumes d: "0 \<le> d12 (ray_constants s t v n)" and rt: "exactly_rounded t"
  shows "9999/10000 * d12 (ray_constants s t v n) \<le> axend (ray_constants s t v n)"
proof (cases "zero_diff_in_x (ray_constants s t v n)")
  case True
  with d show ?thesis by (simp add: ray_axend)
next
  case False
  then have pos: "0 < \<bar>x_of t - x_of s\<bar>"
    by (auto simp add: ray_zero_diff_in_x small_difference_def coord_minus_def)
  have inc: "inc_x (ray_constants s t v n) = d12 (ray_constants s t v n) / \<bar>x_of t - x_of s\<bar>"
    using False by (simp add: ray_inc_x coord_minus_def)
  have "\<bar>x_of t - x_of s\<bar> * inc_x (ray_constants s t v n)
        \<le> ((xmax (ray_constants s t v n) - x_of s) * of_int (sign_x (ray_constants s t v n)))
            * inc_x (ray_constants s t v n)"
    by (rule mult_right_mono [OF ray_exit_factor_x [OF rt] ray_inc_x_nonneg [OF d]])
  moreover have "\<bar>x_of t - x_of s\<bar> * inc_x (ray_constants s t v n) = d12 (ray_constants s t v n)"
    using pos by (simp add: inc)
  ultimately have "d12 (ray_constants s t v n)
        \<le> (xmax (ray_constants s t v n) - x_of s) * inc_x (ray_constants s t v n)
            * of_int (sign_x (ray_constants s t v n))"
    by (simp add: mult_ac)
  then have "9999/10000 * d12 (ray_constants s t v n)
        \<le> (xmax (ray_constants s t v n) - x_of s) * inc_x (ray_constants s t v n)
            * of_int (sign_x (ray_constants s t v n)) * (9999/10000)"
    by simp
  with False show ?thesis by (simp only: ray_axend if_False)
qed

lemma entry_ax_nonneg:
  assumes d: "0 \<le> d12 (ray_constants s t v n)" and rs: "exactly_rounded s"
  shows "0 \<le> entry_ax (ray_constants s t v n) s"
proof (cases "zero_diff_in_x (ray_constants s t v n)")
  case True
  with d show ?thesis by (simp add: entry_ax_eq ray_axend)
next
  case False
  have "0 \<le> ((xmin (ray_constants s t v n) - x_of s) * of_int (sign_x (ray_constants s t v n)) + 1)
          * inc_x (ray_constants s t v n)"
    using ray_entry_factor_x(1) [OF rs, where t = t and v = v and n = n]
      ray_inc_x_nonneg [OF d] by simp
  with False show ?thesis by (simp add: entry_ax_eq algebra_simps)
qed


lemma ray_sign_y_cases: "sign_y (ray_constants s t v n) = 1 \<or> sign_y (ray_constants s t v n) = - 1"
  by (simp add: ray_sign_y)

lemma ray_inc_y_pos: "0 < d12 (ray_constants s t v n) \<Longrightarrow> 0 < inc_y (ray_constants s t v n)"
  by (simp add: ray_inc_y ray_zero_diff_in_y small_difference_def)

lemma ray_inc_y_nonneg: "0 \<le> d12 (ray_constants s t v n) \<Longrightarrow> 0 \<le> inc_y (ray_constants s t v n)"
  by (simp add: ray_inc_y)

lemma ray_inc_y_nonpos: "d12 (ray_constants s t v n) \<le> 0 \<Longrightarrow> inc_y (ray_constants s t v n) \<le> 0"
  by (simp add: ray_inc_y mult_le_0_iff divide_le_0_iff)

lemma ray_entry_factor_y:
  assumes "exactly_rounded s"
  shows "- 1 \<le> (ymin (ray_constants s t v n) - y_of s) * of_int (sign_y (ray_constants s t v n))"
    and "(ymin (ray_constants s t v n) - y_of s) * of_int (sign_y (ray_constants s t v n)) \<le> 0"
  using entry_factor [OF ray_sign_y_cases [of s t v n] exactly_rounded_y [OF assms]]
  by (simp_all only: ray_ymin)

lemma ray_exit_factor_y:
  assumes "exactly_rounded t"
  shows "\<bar>y_of t - y_of s\<bar>
     \<le> (ymax (ray_constants s t v n) - y_of s) * of_int (sign_y (ray_constants s t v n))"
proof -
  have "sign_y (ray_constants s t v n) = (if 0 \<le> y_of t - y_of s then 1 else - 1)"
    by (simp add: ray_sign_y coord_minus_def)
  from exit_factor [OF this exactly_rounded_y [OF assms]] show ?thesis
    by (simp only: ray_ymax)
qed

lemma ray_first_y_nonpos:
  assumes d: "0 \<le> d12 (ray_constants s t v n)" and rs: "exactly_rounded s"
  shows "(if zero_diff_in_y (ray_constants s t v n) then - inc_y (ray_constants s t v n)
          else (ymin (ray_constants s t v n) - y_of s) * inc_y (ray_constants s t v n)
                 * of_int (sign_y (ray_constants s t v n))) \<le> 0"
proof -
  have "((ymin (ray_constants s t v n) - y_of s) * of_int (sign_y (ray_constants s t v n)))
          * inc_y (ray_constants s t v n) \<le> 0"
    by (rule mult_nonpos_nonneg [OF ray_entry_factor_y(2) [OF rs] ray_inc_y_nonneg [OF d]])
  with ray_inc_y_nonneg [OF d] show ?thesis by (simp add: mult_ac)
qed

lemma ray_ayend_reaches:
  assumes d: "0 \<le> d12 (ray_constants s t v n)" and rt: "exactly_rounded t"
  shows "9999/10000 * d12 (ray_constants s t v n) \<le> ayend (ray_constants s t v n)"
proof (cases "zero_diff_in_y (ray_constants s t v n)")
  case True
  with d show ?thesis by (simp add: ray_ayend)
next
  case False
  then have pos: "0 < \<bar>y_of t - y_of s\<bar>"
    by (auto simp add: ray_zero_diff_in_y small_difference_def coord_minus_def)
  have inc: "inc_y (ray_constants s t v n) = d12 (ray_constants s t v n) / \<bar>y_of t - y_of s\<bar>"
    using False by (simp add: ray_inc_y coord_minus_def)
  have "\<bar>y_of t - y_of s\<bar> * inc_y (ray_constants s t v n)
        \<le> ((ymax (ray_constants s t v n) - y_of s) * of_int (sign_y (ray_constants s t v n)))
            * inc_y (ray_constants s t v n)"
    by (rule mult_right_mono [OF ray_exit_factor_y [OF rt] ray_inc_y_nonneg [OF d]])
  moreover have "\<bar>y_of t - y_of s\<bar> * inc_y (ray_constants s t v n) = d12 (ray_constants s t v n)"
    using pos by (simp add: inc)
  ultimately have "d12 (ray_constants s t v n)
        \<le> (ymax (ray_constants s t v n) - y_of s) * inc_y (ray_constants s t v n)
            * of_int (sign_y (ray_constants s t v n))"
    by (simp add: mult_ac)
  then have "9999/10000 * d12 (ray_constants s t v n)
        \<le> (ymax (ray_constants s t v n) - y_of s) * inc_y (ray_constants s t v n)
            * of_int (sign_y (ray_constants s t v n)) * (9999/10000)"
    by simp
  with False show ?thesis by (simp only: ray_ayend if_False)
qed

lemma entry_ay_nonneg:
  assumes d: "0 \<le> d12 (ray_constants s t v n)" and rs: "exactly_rounded s"
  shows "0 \<le> entry_ay (ray_constants s t v n) s"
proof (cases "zero_diff_in_y (ray_constants s t v n)")
  case True
  with d show ?thesis by (simp add: entry_ay_eq ray_ayend)
next
  case False
  have "0 \<le> ((ymin (ray_constants s t v n) - y_of s) * of_int (sign_y (ray_constants s t v n)) + 1)
          * inc_y (ray_constants s t v n)"
    using ray_entry_factor_y(1) [OF rs, where t = t and v = v and n = n]
      ray_inc_y_nonneg [OF d] by simp
  with False show ?thesis by (simp add: entry_ay_eq algebra_simps)
qed


lemma ray_sign_z_cases: "sign_z (ray_constants s t v n) = 1 \<or> sign_z (ray_constants s t v n) = - 1"
  by (simp add: ray_sign_z)

lemma ray_inc_z_pos: "0 < d12 (ray_constants s t v n) \<Longrightarrow> 0 < inc_z (ray_constants s t v n)"
  by (simp add: ray_inc_z ray_zero_diff_in_z small_difference_def)

lemma ray_inc_z_nonneg: "0 \<le> d12 (ray_constants s t v n) \<Longrightarrow> 0 \<le> inc_z (ray_constants s t v n)"
  by (simp add: ray_inc_z)

lemma ray_inc_z_nonpos: "d12 (ray_constants s t v n) \<le> 0 \<Longrightarrow> inc_z (ray_constants s t v n) \<le> 0"
  by (simp add: ray_inc_z mult_le_0_iff divide_le_0_iff)

lemma ray_entry_factor_z:
  assumes "exactly_rounded s"
  shows "- 1 \<le> (zmin (ray_constants s t v n) - z_of s) * of_int (sign_z (ray_constants s t v n))"
    and "(zmin (ray_constants s t v n) - z_of s) * of_int (sign_z (ray_constants s t v n)) \<le> 0"
  using entry_factor [OF ray_sign_z_cases [of s t v n] exactly_rounded_z [OF assms]]
  by (simp_all only: ray_zmin)

lemma ray_exit_factor_z:
  assumes "exactly_rounded t"
  shows "\<bar>z_of t - z_of s\<bar>
     \<le> (zmax (ray_constants s t v n) - z_of s) * of_int (sign_z (ray_constants s t v n))"
proof -
  have "sign_z (ray_constants s t v n) = (if 0 \<le> z_of t - z_of s then 1 else - 1)"
    by (simp add: ray_sign_z coord_minus_def)
  from exit_factor [OF this exactly_rounded_z [OF assms]] show ?thesis
    by (simp only: ray_zmax)
qed

lemma ray_first_z_nonpos:
  assumes d: "0 \<le> d12 (ray_constants s t v n)" and rs: "exactly_rounded s"
  shows "(if zero_diff_in_z (ray_constants s t v n) then - inc_z (ray_constants s t v n)
          else (zmin (ray_constants s t v n) - z_of s) * inc_z (ray_constants s t v n)
                 * of_int (sign_z (ray_constants s t v n))) \<le> 0"
proof -
  have "((zmin (ray_constants s t v n) - z_of s) * of_int (sign_z (ray_constants s t v n)))
          * inc_z (ray_constants s t v n) \<le> 0"
    by (rule mult_nonpos_nonneg [OF ray_entry_factor_z(2) [OF rs] ray_inc_z_nonneg [OF d]])
  with ray_inc_z_nonneg [OF d] show ?thesis by (simp add: mult_ac)
qed

lemma ray_azend_reaches:
  assumes d: "0 \<le> d12 (ray_constants s t v n)" and rt: "exactly_rounded t"
  shows "9999/10000 * d12 (ray_constants s t v n) \<le> azend (ray_constants s t v n)"
proof (cases "zero_diff_in_z (ray_constants s t v n)")
  case True
  with d show ?thesis by (simp add: ray_azend)
next
  case False
  then have pos: "0 < \<bar>z_of t - z_of s\<bar>"
    by (auto simp add: ray_zero_diff_in_z small_difference_def coord_minus_def)
  have inc: "inc_z (ray_constants s t v n) = d12 (ray_constants s t v n) / \<bar>z_of t - z_of s\<bar>"
    using False by (simp add: ray_inc_z coord_minus_def)
  have "\<bar>z_of t - z_of s\<bar> * inc_z (ray_constants s t v n)
        \<le> ((zmax (ray_constants s t v n) - z_of s) * of_int (sign_z (ray_constants s t v n)))
            * inc_z (ray_constants s t v n)"
    by (rule mult_right_mono [OF ray_exit_factor_z [OF rt] ray_inc_z_nonneg [OF d]])
  moreover have "\<bar>z_of t - z_of s\<bar> * inc_z (ray_constants s t v n) = d12 (ray_constants s t v n)"
    using pos by (simp add: inc)
  ultimately have "d12 (ray_constants s t v n)
        \<le> (zmax (ray_constants s t v n) - z_of s) * inc_z (ray_constants s t v n)
            * of_int (sign_z (ray_constants s t v n))"
    by (simp add: mult_ac)
  then have "9999/10000 * d12 (ray_constants s t v n)
        \<le> (zmax (ray_constants s t v n) - z_of s) * inc_z (ray_constants s t v n)
            * of_int (sign_z (ray_constants s t v n)) * (9999/10000)"
    by simp
  with False show ?thesis by (simp only: ray_azend if_False)
qed

lemma entry_az_nonneg:
  assumes d: "0 \<le> d12 (ray_constants s t v n)" and rs: "exactly_rounded s"
  shows "0 \<le> entry_az (ray_constants s t v n) s"
proof (cases "zero_diff_in_z (ray_constants s t v n)")
  case True
  with d show ?thesis by (simp add: entry_az_eq ray_azend)
next
  case False
  have "0 \<le> ((zmin (ray_constants s t v n) - z_of s) * of_int (sign_z (ray_constants s t v n)) + 1)
          * inc_z (ray_constants s t v n)"
    using ray_entry_factor_z(1) [OF rs, where t = t and v = v and n = n]
      ray_inc_z_nonneg [OF d] by simp
  with False show ?thesis by (simp add: entry_az_eq algebra_simps)
qed


lemma coord_norm_nonneg: "0 \<le> coord_norm p"
  by (simp add: coord_norm_def)

lemma ray_d12_nonneg: "0 \<le> n \<Longrightarrow> 0 \<le> d12 (ray_constants s t v n)"
  by (simp add: ray_d12 coord_norm_nonneg)

lemma ray_amax_reaches:
  assumes "0 \<le> d12 (ray_constants s t v n)" and "exactly_rounded t"
  shows "9999/10000 * d12 (ray_constants s t v n) \<le> amax (ray_constants s t v n)"
  using ray_axend_reaches [OF assms] ray_ayend_reaches [OF assms] ray_azend_reaches [OF assms]
  by (simp add: ray_amax)


section \<open>Properties of a run of the loop\<close>

lemma trace_loop_stop:
  "\<not> a < amax r \<Longrightarrow> trace_loop r lor v a ax ay az = Some (lor, v, a, ax, ay, az)"
  by (subst trace_loop.simps) simp


lemma trace_loop_face_adjacent:
  assumes "trace_loop r lor v a ax ay az = Some res"
    and "sign_x r = 1 \<or> sign_x r = - 1" "sign_y r = 1 \<or> sign_y r = - 1"
        "sign_z r = 1 \<or> sign_z r = - 1"
  shows "\<exists>es. fst res = lor @ es \<and> successively face_adjacent (map fst es)
           \<and> (es \<noteq> [] \<longrightarrow> fst (hd es) = v)"
  using assms
proof (induction rule: trace_loop_induct)
  case (stop lor v a ax ay az)
  then show ?case by simp
next
  case (step_x lor v a ax ay az res)
  let ?v' = "CartesianCoordinate3D (z_of v) (y_of v) (x_of v + sign_x r)"
  from step_x obtain es where es: "fst res = (lor @ [(v, ax - a)]) @ es"
    "successively face_adjacent (map fst es)" "es \<noteq> [] \<longrightarrow> fst (hd es) = ?v'"
    by blast
  have "face_adjacent v ?v'" using step_x.prems(1) by (auto simp: face_adjacent_def)
  with es have "successively face_adjacent (map fst ((v, ax - a) # es))"
    by (cases es) auto
  with es(1) show ?case by (intro exI [of _ "(v, ax - a) # es"]) simp
next
  case (step_y lor v a ax ay az res)
  let ?v' = "CartesianCoordinate3D (z_of v) (y_of v + sign_y r) (x_of v)"
  from step_y obtain es where es: "fst res = (lor @ [(v, ay - a)]) @ es"
    "successively face_adjacent (map fst es)" "es \<noteq> [] \<longrightarrow> fst (hd es) = ?v'"
    by blast
  have "face_adjacent v ?v'" using step_y.prems(2) by (auto simp: face_adjacent_def)
  with es have "successively face_adjacent (map fst ((v, ay - a) # es))"
    by (cases es) auto
  with es(1) show ?case by (intro exI [of _ "(v, ay - a) # es"]) simp
next
  case (step_z lor v a ax ay az res)
  let ?v' = "CartesianCoordinate3D (z_of v + sign_z r) (y_of v) (x_of v)"
  from step_z obtain es where es: "fst res = (lor @ [(v, az - a)]) @ es"
    "successively face_adjacent (map fst es)" "es \<noteq> [] \<longrightarrow> fst (hd es) = ?v'"
    by blast
  have "face_adjacent v ?v'" using step_z.prems(3) by (auto simp: face_adjacent_def)
  with es have "successively face_adjacent (map fst ((v, az - a) # es))"
    by (cases es) auto
  with es(1) show ?case by (intro exI [of _ "(v, az - a) # es"]) simp
qed

lemma trace_loop_telescope:
  assumes "trace_loop r lor v a ax ay az = Some res"
  shows "\<exists>es. fst res = lor @ es \<and> sum_list (map snd es) = fst (snd (snd res)) - a
           \<and> \<not> fst (snd (snd res)) < amax r"
  using assms
proof (induction rule: trace_loop_induct)
  case (stop lor v a ax ay az)
  then show ?case by simp
next
  case (step_x lor v a ax ay az res)
  then obtain es where "fst res = (lor @ [(v, ax - a)]) @ es"
    "sum_list (map snd es) = fst (snd (snd res)) - ax" "\<not> fst (snd (snd res)) < amax r"
    by blast
  then show ?case by (intro exI [of _ "(v, ax - a) # es"]) simp
next
  case (step_y lor v a ax ay az res)
  then obtain es where "fst res = (lor @ [(v, ay - a)]) @ es"
    "sum_list (map snd es) = fst (snd (snd res)) - ay" "\<not> fst (snd (snd res)) < amax r"
    by blast
  then show ?case by (intro exI [of _ "(v, ay - a) # es"]) simp
next
  case (step_z lor v a ax ay az res)
  then obtain es where "fst res = (lor @ [(v, az - a)]) @ es"
    "sum_list (map snd es) = fst (snd (snd res)) - az" "\<not> fst (snd (snd res)) < amax r"
    by blast
  then show ?case by (intro exI [of _ "(v, az - a) # es"]) simp
qed




section \<open>Termination\<close>

text \<open>
  With positive increments every step brings one of the three crossing values closer to
  \<open>amax\<close> by a whole increment, or moves \<open>a\<close> beyond \<open>amax\<close>.  When \<open>d12\<close> is zero
  the loop is not entered at all.  So in exact arithmetic every call with a non-negative
  normalisation constant returns.
\<close>

lemma steps_left_step:
  assumes "0 < inc"
  shows "steps_left A inc (c + inc) \<le> steps_left A inc c"
    and "c < A \<Longrightarrow> steps_left A inc (c + inc) < steps_left A inc c"
proof -
  have eq: "(A - (c + inc)) / inc = (A - c) / inc - 1"
    using assms by (simp add: field_simps)
  show "steps_left A inc (c + inc) \<le> steps_left A inc c"
    unfolding steps_left_def eq by simp
  assume "c < A"
  with assms have "0 < (A - c) / inc" by simp
  then have "0 < \<lceil>(A - c) / inc\<rceil>" by simp
  then show "steps_left A inc (c + inc) < steps_left A inc c"
    unfolding steps_left_def eq by simp
qed

lemma loop_variant_step:
  assumes "0 < inc" "a < A"
  shows "(if c < A then 1 else 0) + steps_left A inc (c + inc) < 1 + steps_left A inc c"
  using steps_left_step(1) [OF assms(1), of A c] steps_left_step(2) [OF assms(1), of c A]
  by (cases "c < A") auto

lemma trace_loop_terminates_pos:
  assumes "0 < inc_x r" "0 < inc_y r" "0 < inc_z r"
  shows "\<exists>res. trace_loop r lor v a ax ay az = Some res"
proof (induction "loop_variant r a ax ay az" arbitrary: lor v a ax ay az rule: less_induct)
  case less
  show ?case
  proof (cases "a < amax r")
    case False
    then show ?thesis by (simp add: trace_loop_stop)
  next
    case True
    consider (x) "ax < ay" "ax < az" | (y) "\<not> ax < ay" "ay < az"
      | (z) "(ax < ay \<and> \<not> ax < az) \<or> (\<not> ax < ay \<and> \<not> ay < az)"
      by blast
    then show ?thesis
    proof cases
      case x
      have "loop_variant r ax (ax + inc_x r) ay az < loop_variant r a ax ay az"
        using loop_variant_step [OF assms(1) True, of ax] True by (simp add: loop_variant_def)
      from less [OF this] x True show ?thesis
        by (subst trace_loop.simps) simp
    next
      case y
      have "loop_variant r ay ax (ay + inc_y r) az < loop_variant r a ax ay az"
        using loop_variant_step [OF assms(2) True, of ay] True by (simp add: loop_variant_def)
      from less [OF this] y True show ?thesis
        by (subst trace_loop.simps) simp
    next
      case z
      have "loop_variant r az ax ay (az + inc_z r) < loop_variant r a ax ay az"
        using loop_variant_step [OF assms(3) True, of az] True by (simp add: loop_variant_def)
      from less [OF this] z True show ?thesis
        by (subst trace_loop.simps) auto
    qed
  qed
qed

lemma trace_loop_terminates:
  assumes "a < amax r \<Longrightarrow> 0 < inc_x r \<and> 0 < inc_y r \<and> 0 < inc_z r"
  shows "\<exists>res. trace_loop r lor v a ax ay az = Some res"
proof (cases "a < amax r")
  case True
  with assms show ?thesis by (blast intro: trace_loop_terminates_pos)
next
  case False
  then show ?thesis by (simp add: trace_loop_stop)
qed

lemma ray_amax_le:
  "amax (ray_constants s t v n) \<le> axend (ray_constants s t v n)"
  "amax (ray_constants s t v n) \<le> ayend (ray_constants s t v n)"
  "amax (ray_constants s t v n) \<le> azend (ray_constants s t v n)"
  by (simp_all add: ray_amax)

lemma entry_a_nonpos:
  assumes "0 \<le> d12 (ray_constants s t v n)" and "exactly_rounded s"
  shows "entry_a (ray_constants s t v n) s \<le> 0"
  unfolding entry_a_eq
  using ray_first_x_nonpos [OF assms] ray_first_y_nonpos [OF assms] ray_first_z_nonpos [OF assms]
  by (simp only: max.bounded_iff)

lemma entry_no_run:
  assumes "d12 (ray_constants s t v n) = 0"
  shows "\<not> entry_a (ray_constants s t v n) s < amax (ray_constants s t v n)"
proof -
  have "inc_x (ray_constants s t v n) = 0" "inc_y (ray_constants s t v n) = 0"
    "inc_z (ray_constants s t v n) = 0"
    using assms by (simp_all add: ray_inc_x ray_inc_y ray_inc_z)
  then have "entry_a (ray_constants s t v n) s = 0" "amax (ray_constants s t v n) = 0"
    using assms by (simp_all add: entry_a_eq ray_amax ray_axend ray_ayend ray_azend)
  then show ?thesis by simp
qed

lemma entry_run_terminates:
  assumes "0 \<le> d12 (ray_constants s t v n)"
  shows "\<exists>res. trace_loop (ray_constants s t v n) lor (entry_voxel (ray_constants s t v n) s)
       (entry_a (ray_constants s t v n) s) (entry_ax (ray_constants s t v n) s)
       (entry_ay (ray_constants s t v n) s) (entry_az (ray_constants s t v n) s) = Some res"
proof (rule trace_loop_terminates)
  assume "entry_a (ray_constants s t v n) s < amax (ray_constants s t v n)"
  with entry_no_run [of s t v n] assms have "0 < d12 (ray_constants s t v n)" by fastforce
  then show "0 < inc_x (ray_constants s t v n) \<and> 0 < inc_y (ray_constants s t v n)
     \<and> 0 < inc_z (ray_constants s t v n)"
    by (simp add: ray_inc_x_pos ray_inc_y_pos ray_inc_z_pos)
qed

lemma RayTrace_returns:
  assumes "0 \<le> n"
  shows "\<exists>out. RayTraceVoxelsOnCartesianGrid NDEBUG lor s t v n = Some out"
  using entry_run_terminates [OF ray_d12_nonneg [OF assms], where lor = lor and s = s and t = t and v = v]
  by (auto simp: RayTraceVoxelsOnCartesianGrid_def Let_def initial_state_entry
      split: option.splits)





section \<open>Scaling the normalisation constant\<close>













section \<open>Degenerate and very short segments\<close>

lemma degenerate_segment_without_assertions:
  "RayTraceVoxelsOnCartesianGrid True lor p p voxel_size normalisation_constant = Some (Inr lor)"
proof -
  have "d12 (ray_constants p p voxel_size normalisation_constant) = 0"
    by (simp add: ray_d12 coord_minus_def coord_times_def coord_norm_def)
  then have "\<not> entry_a (ray_constants p p voxel_size normalisation_constant) p
               < amax (ray_constants p p voxel_size normalisation_constant)"
    by (rule entry_no_run)
  from trace_loop_stop [OF this] show ?thesis
    by (simp add: RayTrace_NDEBUG)
qed

lemma near_zero_segment_fails_assertion:
  assumes "\<bar>x_of t - x_of s\<bar> \<le> small_difference" "\<bar>y_of t - y_of s\<bar> \<le> small_difference"
    "\<bar>z_of t - z_of s\<bar> \<le> small_difference"
  shows "RayTraceVoxelsOnCartesianGrid False lor s t v n = Some (Inl (Assertion_failed 128))"
  using assms
  by (simp add: RayTraceVoxelsOnCartesianGrid_def assert_lines_128_130_def ray_simps
      coord_minus_def)

section \<open>How far the indices go\<close>

text \<open>
  After \<open>k\<close> steps along an axis the pending crossing of that axis is \<open>k\<close> increments
  beyond its first value, and \<open>a\<close> has reached the crossing before it.  As the loop
  only runs while \<open>a < amax\<close>, the number of steps taken before an entry is appended is
  bounded by the distance in voxels between the start voxel and the stop voxel, when both
  points are rounded exactly and the crossing values are accumulated without error.
\<close>

lemma index_in_range:
  fixes k N :: int and inc :: real
  assumes "0 < inc" "0 \<le> N" "0 \<le> k" "1 \<le> k \<longrightarrow> c - inc \<le> a"
    "c = c1 + of_int k * inc" "a < A" "A \<le> c1 + of_int N * inc"
  shows "k \<le> N"
proof (cases "1 \<le> k")
  case False
  with assms(2,3) show ?thesis by simp
next
  case True
  with assms have "c1 + of_int k * inc - inc < c1 + of_int N * inc" by linarith
  then have "(of_int k - 1) * inc < of_int N * inc" by (simp add: algebra_simps)
  with assms(1) have "of_int k - 1 < (of_int N :: real)" by simp
  then have "k - 1 < N" by linarith
  then show ?thesis by simp
qed

lemma ray_steps_nonneg_x:
  assumes "exactly_rounded s" "exactly_rounded t"
  shows "0 \<le> (stir_round (x_of t) - stir_round (x_of s)) * sign_x (ray_constants s t v n)"
proof (cases "0 \<le> x_of t - x_of s")
  case True
  then have "stir_round (x_of s) \<le> stir_round (x_of t)"
    by (intro stir_round_mono exactly_rounded_x assms) simp
  with True show ?thesis by (simp add: ray_sign_x coord_minus_def)
next
  case False
  then have "stir_round (x_of t) \<le> stir_round (x_of s)"
    by (intro stir_round_mono exactly_rounded_x assms) simp
  with False show ?thesis by (simp add: ray_sign_x coord_minus_def)
qed

lemma ray_range_bound_x:
  assumes "\<not> zero_diff_in_x (ray_constants s t v n)" "0 < d12 (ray_constants s t v n)"
    and rt: "exactly_rounded t"
  shows "amax (ray_constants s t v n)
     \<le> entry_ax (ray_constants s t v n) s
        + of_int ((stir_round (x_of t) - stir_round (x_of s)) * sign_x (ray_constants s t v n))
          * inc_x (ray_constants s t v n)"
    and "axend (ray_constants s t v n) * (10000/9999)
     = entry_ax (ray_constants s t v n) s
        + of_int ((stir_round (x_of t) - stir_round (x_of s)) * sign_x (ray_constants s t v n))
          * inc_x (ray_constants s t v n)"
proof -
  let ?r = "ray_constants s t v n"
  let ?Q = "(xmax ?r - x_of s) * of_int (sign_x ?r)"
  have inc: "0 < inc_x ?r" using assms(2) by (rule ray_inc_x_pos)
  have "0 \<le> ?Q" using ray_exit_factor_x [OF rt, where s = s and v = v and n = n] by linarith
  with inc have Q: "0 \<le> ?Q * inc_x ?r" by simp
  have ae: "axend ?r = ?Q * inc_x ?r * (9999/10000)"
    using assms(1) by (simp add: ray_axend mult_ac)
  with Q have le: "axend ?r \<le> ?Q * inc_x ?r" by simp
  have eq: "entry_ax ?r s
        + of_int ((stir_round (x_of t) - stir_round (x_of s)) * sign_x ?r) * inc_x ?r
        = ?Q * inc_x ?r"
    using assms(1) ray_sign_x_cases [of s t v n]
    by (auto simp add: entry_ax_eq ray_xmin ray_xmax algebra_simps)
  with le ray_amax_le [of s t v n]
  show "amax ?r \<le> entry_ax ?r s
        + of_int ((stir_round (x_of t) - stir_round (x_of s)) * sign_x ?r) * inc_x ?r"
    by simp
  from eq ae
  show "axend ?r * (10000/9999) = entry_ax ?r s
        + of_int ((stir_round (x_of t) - stir_round (x_of s)) * sign_x ?r) * inc_x ?r"
    by simp
qed

lemma ray_steps_nonneg_y:
  assumes "exactly_rounded s" "exactly_rounded t"
  shows "0 \<le> (stir_round (y_of t) - stir_round (y_of s)) * sign_y (ray_constants s t v n)"
proof (cases "0 \<le> y_of t - y_of s")
  case True
  then have "stir_round (y_of s) \<le> stir_round (y_of t)"
    by (intro stir_round_mono exactly_rounded_y assms) simp
  with True show ?thesis by (simp add: ray_sign_y coord_minus_def)
next
  case False
  then have "stir_round (y_of t) \<le> stir_round (y_of s)"
    by (intro stir_round_mono exactly_rounded_y assms) simp
  with False show ?thesis by (simp add: ray_sign_y coord_minus_def)
qed

lemma ray_range_bound_y:
  assumes "\<not> zero_diff_in_y (ray_constants s t v n)" "0 < d12 (ray_constants s t v n)"
    and rt: "exactly_rounded t"
  shows "amax (ray_constants s t v n)
     \<le> entry_ay (ray_constants s t v n) s
        + of_int ((stir_round (y_of t) - stir_round (y_of s)) * sign_y (ray_constants s t v n))
          * inc_y (ray_constants s t v n)"
    and "ayend (ray_constants s t v n) * (10000/9999)
     = entry_ay (ray_constants s t v n) s
        + of_int ((stir_round (y_of t) - stir_round (y_of s)) * sign_y (ray_constants s t v n))
          * inc_y (ray_constants s t v n)"
proof -
  let ?r = "ray_constants s t v n"
  let ?Q = "(ymax ?r - y_of s) * of_int (sign_y ?r)"
  have inc: "0 < inc_y ?r" using assms(2) by (rule ray_inc_y_pos)
  have "0 \<le> ?Q" using ray_exit_factor_y [OF rt, where s = s and v = v and n = n] by linarith
  with inc have Q: "0 \<le> ?Q * inc_y ?r" by simp
  have ae: "ayend ?r = ?Q * inc_y ?r * (9999/10000)"
    using assms(1) by (simp add: ray_ayend mult_ac)
  with Q have le: "ayend ?r \<le> ?Q * inc_y ?r" by simp
  have eq: "entry_ay ?r s
        + of_int ((stir_round (y_of t) - stir_round (y_of s)) * sign_y ?r) * inc_y ?r
        = ?Q * inc_y ?r"
    using assms(1) ray_sign_y_cases [of s t v n]
    by (auto simp add: entry_ay_eq ray_ymin ray_ymax algebra_simps)
  with le ray_amax_le [of s t v n]
  show "amax ?r \<le> entry_ay ?r s
        + of_int ((stir_round (y_of t) - stir_round (y_of s)) * sign_y ?r) * inc_y ?r"
    by simp
  from eq ae
  show "ayend ?r * (10000/9999) = entry_ay ?r s
        + of_int ((stir_round (y_of t) - stir_round (y_of s)) * sign_y ?r) * inc_y ?r"
    by simp
qed

lemma ray_steps_nonneg_z:
  assumes "exactly_rounded s" "exactly_rounded t"
  shows "0 \<le> (stir_round (z_of t) - stir_round (z_of s)) * sign_z (ray_constants s t v n)"
proof (cases "0 \<le> z_of t - z_of s")
  case True
  then have "stir_round (z_of s) \<le> stir_round (z_of t)"
    by (intro stir_round_mono exactly_rounded_z assms) simp
  with True show ?thesis by (simp add: ray_sign_z coord_minus_def)
next
  case False
  then have "stir_round (z_of t) \<le> stir_round (z_of s)"
    by (intro stir_round_mono exactly_rounded_z assms) simp
  with False show ?thesis by (simp add: ray_sign_z coord_minus_def)
qed

lemma ray_range_bound_z:
  assumes "\<not> zero_diff_in_z (ray_constants s t v n)" "0 < d12 (ray_constants s t v n)"
    and rt: "exactly_rounded t"
  shows "amax (ray_constants s t v n)
     \<le> entry_az (ray_constants s t v n) s
        + of_int ((stir_round (z_of t) - stir_round (z_of s)) * sign_z (ray_constants s t v n))
          * inc_z (ray_constants s t v n)"
    and "azend (ray_constants s t v n) * (10000/9999)
     = entry_az (ray_constants s t v n) s
        + of_int ((stir_round (z_of t) - stir_round (z_of s)) * sign_z (ray_constants s t v n))
          * inc_z (ray_constants s t v n)"
proof -
  let ?r = "ray_constants s t v n"
  let ?Q = "(zmax ?r - z_of s) * of_int (sign_z ?r)"
  have inc: "0 < inc_z ?r" using assms(2) by (rule ray_inc_z_pos)
  have "0 \<le> ?Q" using ray_exit_factor_z [OF rt, where s = s and v = v and n = n] by linarith
  with inc have Q: "0 \<le> ?Q * inc_z ?r" by simp
  have ae: "azend ?r = ?Q * inc_z ?r * (9999/10000)"
    using assms(1) by (simp add: ray_azend mult_ac)
  with Q have le: "azend ?r \<le> ?Q * inc_z ?r" by simp
  have eq: "entry_az ?r s
        + of_int ((stir_round (z_of t) - stir_round (z_of s)) * sign_z ?r) * inc_z ?r
        = ?Q * inc_z ?r"
    using assms(1) ray_sign_z_cases [of s t v n]
    by (auto simp add: entry_az_eq ray_zmin ray_zmax algebra_simps)
  with le ray_amax_le [of s t v n]
  show "amax ?r \<le> entry_az ?r s
        + of_int ((stir_round (z_of t) - stir_round (z_of s)) * sign_z ?r) * inc_z ?r"
    by simp
  from eq ae
  show "azend ?r * (10000/9999) = entry_az ?r s
        + of_int ((stir_round (z_of t) - stir_round (z_of s)) * sign_z ?r) * inc_z ?r"
    by simp
qed

lemma trace_loop_enters:
  assumes "trace_loop r lor v a ax ay az = Some res" and "a < amax r"
  shows "\<exists>e es. fst res = lor @ e # es"
proof -
  consider (x) "ax < ay" "ax < az" | (y) "\<not> ax < ay" "ay < az"
    | (z) "(ax < ay \<and> \<not> ax < az) \<or> (\<not> ax < ay \<and> \<not> ay < az)"
    by blast
  then show ?thesis
  proof cases
    case x
    with assms have "trace_loop r (lor @ [(v, ax - a)])
        (CartesianCoordinate3D (z_of v) (y_of v) (x_of v + sign_x r)) ax (ax + inc_x r) ay az
        = Some res"
      by (subst (asm) trace_loop.simps) simp
    from trace_loop_appends [OF this] show ?thesis by auto
  next
    case y
    with assms have "trace_loop r (lor @ [(v, ay - a)])
        (CartesianCoordinate3D (z_of v) (y_of v + sign_y r) (x_of v)) ay ax (ay + inc_y r) az
        = Some res"
      by (subst (asm) trace_loop.simps) simp
    from trace_loop_appends [OF this] show ?thesis by auto
  next
    case z
    with assms have "trace_loop r (lor @ [(v, az - a)])
        (CartesianCoordinate3D (z_of v + sign_z r) (y_of v) (x_of v)) az ax ay (az + inc_z r)
        = Some res"
      by (subst (asm) trace_loop.simps) auto
    from trace_loop_appends [OF this] show ?thesis by auto
  qed
qed






section \<open>When the assertions hold\<close>

text \<open>
  An end value that is not a sentinel is below the sentinel \<open>d12 * 1000000\<close>: the last
  crossing is at most one voxel beyond the stop point (when the stop point is rounded
  exactly), and the difference along the axis is more than \<open>small_difference\<close>.  So when
  \<open>d12\<close> is positive and at least one axis is not near-zero, \<open>amax\<close> is strictly below
  every sentinel, all six assertions hold and the call returns entries in both builds.
\<close>

lemma exit_factor_upper:
  fixes sg :: int and s t :: real
  assumes "sg = (if 0 \<le> t - s then 1 else - 1)" and "rounds_exactly t"
  shows "(of_int (stir_round t) + of_int sg * (1/2) - s) * of_int sg \<le> \<bar>t - s\<bar> + 1"
  using assms(1) stir_round_near [OF assms(2)]
  by (auto simp: algebra_simps split: if_splits; linarith)


lemma ray_inc_x_below:
  assumes "\<not> zero_diff_in_x (ray_constants s t v n)" "0 < d12 (ray_constants s t v n)"
  shows "inc_x (ray_constants s t v n) < d12 (ray_constants s t v n) * 100000"
proof -
  let ?r = "ray_constants s t v n"
  let ?d = "\<bar>x_of t - x_of s\<bar>"
  have d: "1 / 100000 < ?d"
    using assms(1) by (simp add: ray_zero_diff_in_x small_difference_def coord_minus_def)
  have "d12 ?r / ?d < d12 ?r / (1 / 100000)"
    using d assms(2) by (intro divide_strict_left_mono) auto
  moreover have "inc_x ?r = d12 ?r / ?d"
    using assms(1) by (simp add: ray_inc_x coord_minus_def)
  ultimately show ?thesis by simp
qed

lemma ray_axend_bound:
  assumes "\<not> zero_diff_in_x (ray_constants s t v n)" "0 < d12 (ray_constants s t v n)"
    and rt: "exactly_rounded t"
  shows "axend (ray_constants s t v n) < d12 (ray_constants s t v n) * 100001"
proof -
  let ?r = "ray_constants s t v n"
  let ?Q = "(xmax ?r - x_of s) * of_int (sign_x ?r)"
  let ?d = "\<bar>x_of t - x_of s\<bar>"
  have sg: "sign_x ?r = (if 0 \<le> x_of t - x_of s then 1 else - 1)"
    by (simp add: ray_sign_x coord_minus_def)
  have d: "1 / 100000 < ?d"
    using assms(1) by (simp add: ray_zero_diff_in_x small_difference_def coord_minus_def)
  have inc: "inc_x ?r = d12 ?r / ?d"
    using assms(1) by (simp add: ray_inc_x coord_minus_def)
  have "?Q \<le> ?d + 1"
    using exit_factor_upper [OF sg exactly_rounded_x [OF rt]] by (simp only: ray_xmax)
  moreover have "0 < inc_x ?r" using assms(2) by (rule ray_inc_x_pos)
  ultimately have "?Q * inc_x ?r \<le> (?d + 1) * inc_x ?r"
    by (intro mult_right_mono) simp_all
  also have "(?d + 1) * inc_x ?r = d12 ?r + inc_x ?r"
  proof -
    have "?d \<noteq> 0" using d by linarith
    then show ?thesis by (simp add: inc distrib_right add_divide_distrib)
  qed
  also have "inc_x ?r < d12 ?r * 100000"
    using assms(1,2) by (rule ray_inc_x_below)
  finally have "?Q * inc_x ?r < d12 ?r * 100001" by simp
  then have lt: "?Q * inc_x ?r * (9999/10000) < d12 ?r * 100001"
    using assms(2) by linarith
  have "axend ?r = ?Q * inc_x ?r * (9999/10000)"
    using assms(1) by (simp add: ray_axend mult_ac)
  with lt show ?thesis by (simp only:)
qed

lemma ray_axend_below_sentinel:
  assumes "\<not> zero_diff_in_x (ray_constants s t v n)" "0 < d12 (ray_constants s t v n)"
    and "exactly_rounded t"
  shows "axend (ray_constants s t v n) < d12 (ray_constants s t v n) * 1000000"
  using ray_axend_bound [OF assms] assms(2) by simp




lemma ray_inc_y_below:
  assumes "\<not> zero_diff_in_y (ray_constants s t v n)" "0 < d12 (ray_constants s t v n)"
  shows "inc_y (ray_constants s t v n) < d12 (ray_constants s t v n) * 100000"
proof -
  let ?r = "ray_constants s t v n"
  let ?d = "\<bar>y_of t - y_of s\<bar>"
  have d: "1 / 100000 < ?d"
    using assms(1) by (simp add: ray_zero_diff_in_y small_difference_def coord_minus_def)
  have "d12 ?r / ?d < d12 ?r / (1 / 100000)"
    using d assms(2) by (intro divide_strict_left_mono) auto
  moreover have "inc_y ?r = d12 ?r / ?d"
    using assms(1) by (simp add: ray_inc_y coord_minus_def)
  ultimately show ?thesis by simp
qed

lemma ray_ayend_bound:
  assumes "\<not> zero_diff_in_y (ray_constants s t v n)" "0 < d12 (ray_constants s t v n)"
    and rt: "exactly_rounded t"
  shows "ayend (ray_constants s t v n) < d12 (ray_constants s t v n) * 100001"
proof -
  let ?r = "ray_constants s t v n"
  let ?Q = "(ymax ?r - y_of s) * of_int (sign_y ?r)"
  let ?d = "\<bar>y_of t - y_of s\<bar>"
  have sg: "sign_y ?r = (if 0 \<le> y_of t - y_of s then 1 else - 1)"
    by (simp add: ray_sign_y coord_minus_def)
  have d: "1 / 100000 < ?d"
    using assms(1) by (simp add: ray_zero_diff_in_y small_difference_def coord_minus_def)
  have inc: "inc_y ?r = d12 ?r / ?d"
    using assms(1) by (simp add: ray_inc_y coord_minus_def)
  have "?Q \<le> ?d + 1"
    using exit_factor_upper [OF sg exactly_rounded_y [OF rt]] by (simp only: ray_ymax)
  moreover have "0 < inc_y ?r" using assms(2) by (rule ray_inc_y_pos)
  ultimately have "?Q * inc_y ?r \<le> (?d + 1) * inc_y ?r"
    by (intro mult_right_mono) simp_all
  also have "(?d + 1) * inc_y ?r = d12 ?r + inc_y ?r"
  proof -
    have "?d \<noteq> 0" using d by linarith
    then show ?thesis by (simp add: inc distrib_right add_divide_distrib)
  qed
  also have "inc_y ?r < d12 ?r * 100000"
    using assms(1,2) by (rule ray_inc_y_below)
  finally have "?Q * inc_y ?r < d12 ?r * 100001" by simp
  then have lt: "?Q * inc_y ?r * (9999/10000) < d12 ?r * 100001"
    using assms(2) by linarith
  have "ayend ?r = ?Q * inc_y ?r * (9999/10000)"
    using assms(1) by (simp add: ray_ayend mult_ac)
  with lt show ?thesis by (simp only:)
qed

lemma ray_ayend_below_sentinel:
  assumes "\<not> zero_diff_in_y (ray_constants s t v n)" "0 < d12 (ray_constants s t v n)"
    and "exactly_rounded t"
  shows "ayend (ray_constants s t v n) < d12 (ray_constants s t v n) * 1000000"
  using ray_ayend_bound [OF assms] assms(2) by simp




lemma ray_inc_z_below:
  assumes "\<not> zero_diff_in_z (ray_constants s t v n)" "0 < d12 (ray_constants s t v n)"
  shows "inc_z (ray_constants s t v n) < d12 (ray_constants s t v n) * 100000"
proof -
  let ?r = "ray_constants s t v n"
  let ?d = "\<bar>z_of t - z_of s\<bar>"
  have d: "1 / 100000 < ?d"
    using assms(1) by (simp add: ray_zero_diff_in_z small_difference_def coord_minus_def)
  have "d12 ?r / ?d < d12 ?r / (1 / 100000)"
    using d assms(2) by (intro divide_strict_left_mono) auto
  moreover have "inc_z ?r = d12 ?r / ?d"
    using assms(1) by (simp add: ray_inc_z coord_minus_def)
  ultimately show ?thesis by simp
qed

lemma ray_azend_bound:
  assumes "\<not> zero_diff_in_z (ray_constants s t v n)" "0 < d12 (ray_constants s t v n)"
    and rt: "exactly_rounded t"
  shows "azend (ray_constants s t v n) < d12 (ray_constants s t v n) * 100001"
proof -
  let ?r = "ray_constants s t v n"
  let ?Q = "(zmax ?r - z_of s) * of_int (sign_z ?r)"
  let ?d = "\<bar>z_of t - z_of s\<bar>"
  have sg: "sign_z ?r = (if 0 \<le> z_of t - z_of s then 1 else - 1)"
    by (simp add: ray_sign_z coord_minus_def)
  have d: "1 / 100000 < ?d"
    using assms(1) by (simp add: ray_zero_diff_in_z small_difference_def coord_minus_def)
  have inc: "inc_z ?r = d12 ?r / ?d"
    using assms(1) by (simp add: ray_inc_z coord_minus_def)
  have "?Q \<le> ?d + 1"
    using exit_factor_upper [OF sg exactly_rounded_z [OF rt]] by (simp only: ray_zmax)
  moreover have "0 < inc_z ?r" using assms(2) by (rule ray_inc_z_pos)
  ultimately have "?Q * inc_z ?r \<le> (?d + 1) * inc_z ?r"
    by (intro mult_right_mono) simp_all
  also have "(?d + 1) * inc_z ?r = d12 ?r + inc_z ?r"
  proof -
    have "?d \<noteq> 0" using d by linarith
    then show ?thesis by (simp add: inc distrib_right add_divide_distrib)
  qed
  also have "inc_z ?r < d12 ?r * 100000"
    using assms(1,2) by (rule ray_inc_z_below)
  finally have "?Q * inc_z ?r < d12 ?r * 100001" by simp
  then have lt: "?Q * inc_z ?r * (9999/10000) < d12 ?r * 100001"
    using assms(2) by linarith
  have "azend ?r = ?Q * inc_z ?r * (9999/10000)"
    using assms(1) by (simp add: ray_azend mult_ac)
  with lt show ?thesis by (simp only:)
qed

lemma ray_azend_below_sentinel:
  assumes "\<not> zero_diff_in_z (ray_constants s t v n)" "0 < d12 (ray_constants s t v n)"
    and "exactly_rounded t"
  shows "azend (ray_constants s t v n) < d12 (ray_constants s t v n) * 1000000"
  using ray_azend_bound [OF assms] assms(2) by simp




lemma ray_amax_below_sentinel:
  assumes "0 < d12 (ray_constants s t v n)"
    and "\<not> (zero_diff_in_x (ray_constants s t v n) \<and> zero_diff_in_y (ray_constants s t v n)
            \<and> zero_diff_in_z (ray_constants s t v n))"
    and rt: "exactly_rounded t"
  shows "amax (ray_constants s t v n) < d12 (ray_constants s t v n) * 1000000"
proof -
  from assms(2) consider "\<not> zero_diff_in_x (ray_constants s t v n)"
    | "\<not> zero_diff_in_y (ray_constants s t v n)" | "\<not> zero_diff_in_z (ray_constants s t v n)"
    by blast
  then show ?thesis
  proof cases
    case 1
    from ray_axend_below_sentinel [OF this assms(1) rt] ray_amax_le(1) [of s t v n]
    show ?thesis by linarith
  next
    case 2
    from ray_ayend_below_sentinel [OF this assms(1) rt] ray_amax_le(2) [of s t v n]
    show ?thesis by linarith
  next
    case 3
    from ray_azend_below_sentinel [OF this assms(1) rt] ray_amax_le(3) [of s t v n]
    show ?thesis by linarith
  qed
qed

lemma assertions_hold:
  assumes "0 < d12 (ray_constants s t v n)"
    and "\<not> (zero_diff_in_x (ray_constants s t v n) \<and> zero_diff_in_y (ray_constants s t v n)
            \<and> zero_diff_in_z (ray_constants s t v n))"
    and "exactly_rounded t"
  shows "assert_lines_128_130 (ray_constants s t v n) = None"
    and "assert_lines_167_169 (ray_constants s t v n) (entry_ax (ray_constants s t v n) s)
           (entry_ay (ray_constants s t v n) s) (entry_az (ray_constants s t v n) s) = None"
proof -
  let ?r = "ray_constants s t v n"
  note below = ray_amax_below_sentinel [OF assms]
  have x: "amax ?r < axend ?r" if "zero_diff_in_x ?r"
    using that below by (simp add: ray_axend)
  have y: "amax ?r < ayend ?r" if "zero_diff_in_y ?r"
    using that below by (simp add: ray_ayend)
  have z: "amax ?r < azend ?r" if "zero_diff_in_z ?r"
    using that below by (simp add: ray_azend)
  have zd: "\<not> small_difference < \<bar>x_of (difference ?r)\<bar> \<Longrightarrow> zero_diff_in_x ?r"
    "\<not> small_difference < \<bar>y_of (difference ?r)\<bar> \<Longrightarrow> zero_diff_in_y ?r"
    "\<not> small_difference < \<bar>z_of (difference ?r)\<bar> \<Longrightarrow> zero_diff_in_z ?r"
    by (simp_all add: ray_simps)
  show "assert_lines_128_130 ?r = None"
    unfolding assert_lines_128_130_def using x y z zd by auto
  show "assert_lines_167_169 ?r (entry_ax ?r s) (entry_ay ?r s) (entry_az ?r s) = None"
    unfolding assert_lines_167_169_def using x y z
    by (auto simp: entry_ax_eq entry_ay_eq entry_az_eq)
qed

lemma RayTrace_no_assertion_fails:
  assumes "0 < d12 (ray_constants s t v n)"
    and "\<not> (zero_diff_in_x (ray_constants s t v n) \<and> zero_diff_in_y (ray_constants s t v n)
            \<and> zero_diff_in_z (ray_constants s t v n))"
    and "exactly_rounded t"
  shows "\<exists>lor'. RayTraceVoxelsOnCartesianGrid NDEBUG lor s t v n = Some (Inr lor')"
proof -
  have "0 \<le> d12 (ray_constants s t v n)" using assms(1) by simp
  from entry_run_terminates [OF this, of lor] assertions_hold [OF assms]
  show ?thesis
    by (auto simp: RayTraceVoxelsOnCartesianGrid_def Let_def initial_state_entry)
qed






section \<open>The last crossing\<close>

text \<open>
  When start and stop point are rounded exactly and \<open>d12\<close> is positive, the loop is left
  through a crossing that is not beyond the exit from the stop voxel along any axis that is
  not near-zero, and the last entry is appended for a voxel that the line occupies when
  \<open>a\<close> reaches \<open>amax\<close>.  This gives an upper bound for the sum of the weights and tells
  when the last entry is the stop voxel.  All of this is for crossing values that are
  accumulated without rounding error.
\<close>

lemma trace_loop_x_last:
  assumes "trace_loop r lor v a ax ay az = Some res"
    and "0 < inc_x r" "0 \<le> inc_y r" "0 \<le> inc_z r"
    and "amax r \<le> ax_first + of_int N * inc_x r" "0 \<le> N"
    and "a \<le> ax" "a \<le> ay" "a \<le> az"
    and "0 \<le> k" "x_of v = x_first + sign_x r * k" "ax = ax_first + of_int k * inc_x r"
        "1 \<le> k \<longrightarrow> ax - inc_x r \<le> a"
  shows "\<exists>es. fst res = lor @ es \<and>
           (es \<noteq> [] \<longrightarrow>
             (\<exists>j. 0 \<le> j \<and> j \<le> N \<and> x_of (fst (last es)) = x_first + sign_x r * j \<and>
                  amax r \<le> ax_first + of_int j * inc_x r \<and>
                  (1 \<le> j \<longrightarrow> ax_first + of_int (j - 1) * inc_x r < amax r)) \<and>
             fst (snd (snd res)) \<le> ax_first + of_int N * inc_x r)"
  using assms
proof (induction arbitrary: k rule: trace_loop_induct)
  case (stop lor v a ax ay az)
  then show ?case by simp
next
  case (step_x lor v a ax ay az res)
  note p = step_x.prems
  have k: "k \<le> N"
    by (rule index_in_range [OF p(1) p(5) p(9) p(12) p(11) step_x.hyps(1) p(4)])
  have sel: "ax \<le> ax" using step_x.hyps by auto
  have bound: "ax \<le> ax_first + of_int N * inc_x r"
  proof -
    have "of_int k * inc_x r \<le> of_int N * inc_x r"
      using k p(1) by (intro mult_right_mono) simp_all
    with p(11) show ?thesis by simp
  qed
  have "\<exists>es. fst res = (lor @ [(v, ax - a)]) @ es \<and>
           (es \<noteq> [] \<longrightarrow>
             (\<exists>j. 0 \<le> j \<and> j \<le> N \<and> x_of (fst (last es)) = x_first + sign_x r * j \<and>
                  amax r \<le> ax_first + of_int j * inc_x r \<and>
                  (1 \<le> j \<longrightarrow> ax_first + of_int (j - 1) * inc_x r < amax r)) \<and>
             fst (snd (snd res)) \<le> ax_first + of_int N * inc_x r)"
  proof (rule step_x.IH [where k = "k + 1"])
    show "ax + inc_x r = ax_first + of_int (k + 1) * inc_x r"
      using p(11) by (simp add: algebra_simps)
    show "x_of (CartesianCoordinate3D (z_of v) (y_of v) (x_of v + sign_x r)) = x_first + sign_x r * (k + 1)"
      using p(10) by (simp add: algebra_simps)
  qed (use p step_x.hyps in auto)
  then obtain es where es: "fst res = (lor @ [(v, ax - a)]) @ es"
    "es \<noteq> [] \<longrightarrow>
             (\<exists>j. 0 \<le> j \<and> j \<le> N \<and> x_of (fst (last es)) = x_first + sign_x r * j \<and>
                  amax r \<le> ax_first + of_int j * inc_x r \<and>
                  (1 \<le> j \<longrightarrow> ax_first + of_int (j - 1) * inc_x r < amax r)) \<and>
             fst (snd (snd res)) \<le> ax_first + of_int N * inc_x r"
    by blast
  show ?case
  proof (cases "es = []")
    case False
    with es show ?thesis by (intro exI [of _ "(v, ax - a) # es"]) simp
  next
    case True
    have stopped: "\<not> ax < amax r"
    proof
      assume "ax < amax r"
      from trace_loop_enters [OF step_x.hyps(4) this] es(1) True show False by simp
    qed
    from trace_loop_stop [OF this] step_x.hyps(4)
    have "fst (snd (snd res)) = ax" by auto
    with sel bound have fin: "fst (snd (snd res)) \<le> ax_first + of_int N * inc_x r" by simp
    from stopped sel p(11) have "amax r \<le> ax_first + of_int k * inc_x r" by simp
    moreover have "1 \<le> k \<longrightarrow> ax_first + of_int (k - 1) * inc_x r < amax r"
      using p(11,12) step_x.hyps(1) by (auto simp: algebra_simps)
    ultimately have "\<exists>j. 0 \<le> j \<and> j \<le> N \<and> x_of v = x_first + sign_x r * j \<and>
                  amax r \<le> ax_first + of_int j * inc_x r \<and>
                  (1 \<le> j \<longrightarrow> ax_first + of_int (j - 1) * inc_x r < amax r)"
      using k p(9,10) by blast
    with fin es(1) True show ?thesis by (intro exI [of _ "[(v, ax - a)]"]) simp
  qed
next
  case (step_y lor v a ax ay az res)
  note p = step_y.prems
  have k: "k \<le> N"
    by (rule index_in_range [OF p(1) p(5) p(9) p(12) p(11) step_y.hyps(1) p(4)])
  have sel: "ay \<le> ax" using step_y.hyps by auto
  have bound: "ax \<le> ax_first + of_int N * inc_x r"
  proof -
    have "of_int k * inc_x r \<le> of_int N * inc_x r"
      using k p(1) by (intro mult_right_mono) simp_all
    with p(11) show ?thesis by simp
  qed
  have "\<exists>es. fst res = (lor @ [(v, ay - a)]) @ es \<and>
           (es \<noteq> [] \<longrightarrow>
             (\<exists>j. 0 \<le> j \<and> j \<le> N \<and> x_of (fst (last es)) = x_first + sign_x r * j \<and>
                  amax r \<le> ax_first + of_int j * inc_x r \<and>
                  (1 \<le> j \<longrightarrow> ax_first + of_int (j - 1) * inc_x r < amax r)) \<and>
             fst (snd (snd res)) \<le> ax_first + of_int N * inc_x r)"
  proof (rule step_y.IH [where k = "k"])
    show "1 \<le> k \<longrightarrow> ax - inc_x r \<le> ay"
      using p(6-8,12) by linarith
  qed (use p step_y.hyps in auto)
  then obtain es where es: "fst res = (lor @ [(v, ay - a)]) @ es"
    "es \<noteq> [] \<longrightarrow>
             (\<exists>j. 0 \<le> j \<and> j \<le> N \<and> x_of (fst (last es)) = x_first + sign_x r * j \<and>
                  amax r \<le> ax_first + of_int j * inc_x r \<and>
                  (1 \<le> j \<longrightarrow> ax_first + of_int (j - 1) * inc_x r < amax r)) \<and>
             fst (snd (snd res)) \<le> ax_first + of_int N * inc_x r"
    by blast
  show ?case
  proof (cases "es = []")
    case False
    with es show ?thesis by (intro exI [of _ "(v, ay - a) # es"]) simp
  next
    case True
    have stopped: "\<not> ay < amax r"
    proof
      assume "ay < amax r"
      from trace_loop_enters [OF step_y.hyps(4) this] es(1) True show False by simp
    qed
    from trace_loop_stop [OF this] step_y.hyps(4)
    have "fst (snd (snd res)) = ay" by auto
    with sel bound have fin: "fst (snd (snd res)) \<le> ax_first + of_int N * inc_x r" by simp
    from stopped sel p(11) have "amax r \<le> ax_first + of_int k * inc_x r" by simp
    moreover have "1 \<le> k \<longrightarrow> ax_first + of_int (k - 1) * inc_x r < amax r"
      using p(11,12) step_y.hyps(1) by (auto simp: algebra_simps)
    ultimately have "\<exists>j. 0 \<le> j \<and> j \<le> N \<and> x_of v = x_first + sign_x r * j \<and>
                  amax r \<le> ax_first + of_int j * inc_x r \<and>
                  (1 \<le> j \<longrightarrow> ax_first + of_int (j - 1) * inc_x r < amax r)"
      using k p(9,10) by blast
    with fin es(1) True show ?thesis by (intro exI [of _ "[(v, ay - a)]"]) simp
  qed
next
  case (step_z lor v a ax ay az res)
  note p = step_z.prems
  have k: "k \<le> N"
    by (rule index_in_range [OF p(1) p(5) p(9) p(12) p(11) step_z.hyps(1) p(4)])
  have sel: "az \<le> ax" using step_z.hyps by auto
  have bound: "ax \<le> ax_first + of_int N * inc_x r"
  proof -
    have "of_int k * inc_x r \<le> of_int N * inc_x r"
      using k p(1) by (intro mult_right_mono) simp_all
    with p(11) show ?thesis by simp
  qed
  have "\<exists>es. fst res = (lor @ [(v, az - a)]) @ es \<and>
           (es \<noteq> [] \<longrightarrow>
             (\<exists>j. 0 \<le> j \<and> j \<le> N \<and> x_of (fst (last es)) = x_first + sign_x r * j \<and>
                  amax r \<le> ax_first + of_int j * inc_x r \<and>
                  (1 \<le> j \<longrightarrow> ax_first + of_int (j - 1) * inc_x r < amax r)) \<and>
             fst (snd (snd res)) \<le> ax_first + of_int N * inc_x r)"
  proof (rule step_z.IH [where k = "k"])
    show "1 \<le> k \<longrightarrow> ax - inc_x r \<le> az"
      using p(6-8,12) by linarith
  qed (use p step_z.hyps in auto)
  then obtain es where es: "fst res = (lor @ [(v, az - a)]) @ es"
    "es \<noteq> [] \<longrightarrow>
             (\<exists>j. 0 \<le> j \<and> j \<le> N \<and> x_of (fst (last es)) = x_first + sign_x r * j \<and>
                  amax r \<le> ax_first + of_int j * inc_x r \<and>
                  (1 \<le> j \<longrightarrow> ax_first + of_int (j - 1) * inc_x r < amax r)) \<and>
             fst (snd (snd res)) \<le> ax_first + of_int N * inc_x r"
    by blast
  show ?case
  proof (cases "es = []")
    case False
    with es show ?thesis by (intro exI [of _ "(v, az - a) # es"]) simp
  next
    case True
    have stopped: "\<not> az < amax r"
    proof
      assume "az < amax r"
      from trace_loop_enters [OF step_z.hyps(3) this] es(1) True show False by simp
    qed
    from trace_loop_stop [OF this] step_z.hyps(3)
    have "fst (snd (snd res)) = az" by auto
    with sel bound have fin: "fst (snd (snd res)) \<le> ax_first + of_int N * inc_x r" by simp
    from stopped sel p(11) have "amax r \<le> ax_first + of_int k * inc_x r" by simp
    moreover have "1 \<le> k \<longrightarrow> ax_first + of_int (k - 1) * inc_x r < amax r"
      using p(11,12) step_z.hyps(1) by (auto simp: algebra_simps)
    ultimately have "\<exists>j. 0 \<le> j \<and> j \<le> N \<and> x_of v = x_first + sign_x r * j \<and>
                  amax r \<le> ax_first + of_int j * inc_x r \<and>
                  (1 \<le> j \<longrightarrow> ax_first + of_int (j - 1) * inc_x r < amax r)"
      using k p(9,10) by blast
    with fin es(1) True show ?thesis by (intro exI [of _ "[(v, az - a)]"]) simp
  qed
qed

lemma trace_loop_y_last:
  assumes "trace_loop r lor v a ax ay az = Some res"
    and "0 < inc_y r" "0 \<le> inc_x r" "0 \<le> inc_z r"
    and "amax r \<le> ay_first + of_int N * inc_y r" "0 \<le> N"
    and "a \<le> ax" "a \<le> ay" "a \<le> az"
    and "0 \<le> k" "y_of v = y_first + sign_y r * k" "ay = ay_first + of_int k * inc_y r"
        "1 \<le> k \<longrightarrow> ay - inc_y r \<le> a"
  shows "\<exists>es. fst res = lor @ es \<and>
           (es \<noteq> [] \<longrightarrow>
             (\<exists>j. 0 \<le> j \<and> j \<le> N \<and> y_of (fst (last es)) = y_first + sign_y r * j \<and>
                  amax r \<le> ay_first + of_int j * inc_y r \<and>
                  (1 \<le> j \<longrightarrow> ay_first + of_int (j - 1) * inc_y r < amax r)) \<and>
             fst (snd (snd res)) \<le> ay_first + of_int N * inc_y r)"
  using assms
proof (induction arbitrary: k rule: trace_loop_induct)
  case (stop lor v a ax ay az)
  then show ?case by simp
next
  case (step_x lor v a ax ay az res)
  note p = step_x.prems
  have k: "k \<le> N"
    by (rule index_in_range [OF p(1) p(5) p(9) p(12) p(11) step_x.hyps(1) p(4)])
  have sel: "ax \<le> ay" using step_x.hyps by auto
  have bound: "ay \<le> ay_first + of_int N * inc_y r"
  proof -
    have "of_int k * inc_y r \<le> of_int N * inc_y r"
      using k p(1) by (intro mult_right_mono) simp_all
    with p(11) show ?thesis by simp
  qed
  have "\<exists>es. fst res = (lor @ [(v, ax - a)]) @ es \<and>
           (es \<noteq> [] \<longrightarrow>
             (\<exists>j. 0 \<le> j \<and> j \<le> N \<and> y_of (fst (last es)) = y_first + sign_y r * j \<and>
                  amax r \<le> ay_first + of_int j * inc_y r \<and>
                  (1 \<le> j \<longrightarrow> ay_first + of_int (j - 1) * inc_y r < amax r)) \<and>
             fst (snd (snd res)) \<le> ay_first + of_int N * inc_y r)"
  proof (rule step_x.IH [where k = "k"])
    show "1 \<le> k \<longrightarrow> ay - inc_y r \<le> ax"
      using p(6-8,12) by linarith
  qed (use p step_x.hyps in auto)
  then obtain es where es: "fst res = (lor @ [(v, ax - a)]) @ es"
    "es \<noteq> [] \<longrightarrow>
             (\<exists>j. 0 \<le> j \<and> j \<le> N \<and> y_of (fst (last es)) = y_first + sign_y r * j \<and>
                  amax r \<le> ay_first + of_int j * inc_y r \<and>
                  (1 \<le> j \<longrightarrow> ay_first + of_int (j - 1) * inc_y r < amax r)) \<and>
             fst (snd (snd res)) \<le> ay_first + of_int N * inc_y r"
    by blast
  show ?case
  proof (cases "es = []")
    case False
    with es show ?thesis by (intro exI [of _ "(v, ax - a) # es"]) simp
  next
    case True
    have stopped: "\<not> ax < amax r"
    proof
      assume "ax < amax r"
      from trace_loop_enters [OF step_x.hyps(4) this] es(1) True show False by simp
    qed
    from trace_loop_stop [OF this] step_x.hyps(4)
    have "fst (snd (snd res)) = ax" by auto
    with sel bound have fin: "fst (snd (snd res)) \<le> ay_first + of_int N * inc_y r" by simp
    from stopped sel p(11) have "amax r \<le> ay_first + of_int k * inc_y r" by simp
    moreover have "1 \<le> k \<longrightarrow> ay_first + of_int (k - 1) * inc_y r < amax r"
      using p(11,12) step_x.hyps(1) by (auto simp: algebra_simps)
    ultimately have "\<exists>j. 0 \<le> j \<and> j \<le> N \<and> y_of v = y_first + sign_y r * j \<and>
                  amax r \<le> ay_first + of_int j * inc_y r \<and>
                  (1 \<le> j \<longrightarrow> ay_first + of_int (j - 1) * inc_y r < amax r)"
      using k p(9,10) by blast
    with fin es(1) True show ?thesis by (intro exI [of _ "[(v, ax - a)]"]) simp
  qed
next
  case (step_y lor v a ax ay az res)
  note p = step_y.prems
  have k: "k \<le> N"
    by (rule index_in_range [OF p(1) p(5) p(9) p(12) p(11) step_y.hyps(1) p(4)])
  have sel: "ay \<le> ay" using step_y.hyps by auto
  have bound: "ay \<le> ay_first + of_int N * inc_y r"
  proof -
    have "of_int k * inc_y r \<le> of_int N * inc_y r"
      using k p(1) by (intro mult_right_mono) simp_all
    with p(11) show ?thesis by simp
  qed
  have "\<exists>es. fst res = (lor @ [(v, ay - a)]) @ es \<and>
           (es \<noteq> [] \<longrightarrow>
             (\<exists>j. 0 \<le> j \<and> j \<le> N \<and> y_of (fst (last es)) = y_first + sign_y r * j \<and>
                  amax r \<le> ay_first + of_int j * inc_y r \<and>
                  (1 \<le> j \<longrightarrow> ay_first + of_int (j - 1) * inc_y r < amax r)) \<and>
             fst (snd (snd res)) \<le> ay_first + of_int N * inc_y r)"
  proof (rule step_y.IH [where k = "k + 1"])
    show "ay + inc_y r = ay_first + of_int (k + 1) * inc_y r"
      using p(11) by (simp add: algebra_simps)
    show "y_of (CartesianCoordinate3D (z_of v) (y_of v + sign_y r) (x_of v)) = y_first + sign_y r * (k + 1)"
      using p(10) by (simp add: algebra_simps)
  qed (use p step_y.hyps in auto)
  then obtain es where es: "fst res = (lor @ [(v, ay - a)]) @ es"
    "es \<noteq> [] \<longrightarrow>
             (\<exists>j. 0 \<le> j \<and> j \<le> N \<and> y_of (fst (last es)) = y_first + sign_y r * j \<and>
                  amax r \<le> ay_first + of_int j * inc_y r \<and>
                  (1 \<le> j \<longrightarrow> ay_first + of_int (j - 1) * inc_y r < amax r)) \<and>
             fst (snd (snd res)) \<le> ay_first + of_int N * inc_y r"
    by blast
  show ?case
  proof (cases "es = []")
    case False
    with es show ?thesis by (intro exI [of _ "(v, ay - a) # es"]) simp
  next
    case True
    have stopped: "\<not> ay < amax r"
    proof
      assume "ay < amax r"
      from trace_loop_enters [OF step_y.hyps(4) this] es(1) True show False by simp
    qed
    from trace_loop_stop [OF this] step_y.hyps(4)
    have "fst (snd (snd res)) = ay" by auto
    with sel bound have fin: "fst (snd (snd res)) \<le> ay_first + of_int N * inc_y r" by simp
    from stopped sel p(11) have "amax r \<le> ay_first + of_int k * inc_y r" by simp
    moreover have "1 \<le> k \<longrightarrow> ay_first + of_int (k - 1) * inc_y r < amax r"
      using p(11,12) step_y.hyps(1) by (auto simp: algebra_simps)
    ultimately have "\<exists>j. 0 \<le> j \<and> j \<le> N \<and> y_of v = y_first + sign_y r * j \<and>
                  amax r \<le> ay_first + of_int j * inc_y r \<and>
                  (1 \<le> j \<longrightarrow> ay_first + of_int (j - 1) * inc_y r < amax r)"
      using k p(9,10) by blast
    with fin es(1) True show ?thesis by (intro exI [of _ "[(v, ay - a)]"]) simp
  qed
next
  case (step_z lor v a ax ay az res)
  note p = step_z.prems
  have k: "k \<le> N"
    by (rule index_in_range [OF p(1) p(5) p(9) p(12) p(11) step_z.hyps(1) p(4)])
  have sel: "az \<le> ay" using step_z.hyps by auto
  have bound: "ay \<le> ay_first + of_int N * inc_y r"
  proof -
    have "of_int k * inc_y r \<le> of_int N * inc_y r"
      using k p(1) by (intro mult_right_mono) simp_all
    with p(11) show ?thesis by simp
  qed
  have "\<exists>es. fst res = (lor @ [(v, az - a)]) @ es \<and>
           (es \<noteq> [] \<longrightarrow>
             (\<exists>j. 0 \<le> j \<and> j \<le> N \<and> y_of (fst (last es)) = y_first + sign_y r * j \<and>
                  amax r \<le> ay_first + of_int j * inc_y r \<and>
                  (1 \<le> j \<longrightarrow> ay_first + of_int (j - 1) * inc_y r < amax r)) \<and>
             fst (snd (snd res)) \<le> ay_first + of_int N * inc_y r)"
  proof (rule step_z.IH [where k = "k"])
    show "1 \<le> k \<longrightarrow> ay - inc_y r \<le> az"
      using p(6-8,12) by linarith
  qed (use p step_z.hyps in auto)
  then obtain es where es: "fst res = (lor @ [(v, az - a)]) @ es"
    "es \<noteq> [] \<longrightarrow>
             (\<exists>j. 0 \<le> j \<and> j \<le> N \<and> y_of (fst (last es)) = y_first + sign_y r * j \<and>
                  amax r \<le> ay_first + of_int j * inc_y r \<and>
                  (1 \<le> j \<longrightarrow> ay_first + of_int (j - 1) * inc_y r < amax r)) \<and>
             fst (snd (snd res)) \<le> ay_first + of_int N * inc_y r"
    by blast
  show ?case
  proof (cases "es = []")
    case False
    with es show ?thesis by (intro exI [of _ "(v, az - a) # es"]) simp
  next
    case True
    have stopped: "\<not> az < amax r"
    proof
      assume "az < amax r"
      from trace_loop_enters [OF step_z.hyps(3) this] es(1) True show False by simp
    qed
    from trace_loop_stop [OF this] step_z.hyps(3)
    have "fst (snd (snd res)) = az" by auto
    with sel bound have fin: "fst (snd (snd res)) \<le> ay_first + of_int N * inc_y r" by simp
    from stopped sel p(11) have "amax r \<le> ay_first + of_int k * inc_y r" by simp
    moreover have "1 \<le> k \<longrightarrow> ay_first + of_int (k - 1) * inc_y r < amax r"
      using p(11,12) step_z.hyps(1) by (auto simp: algebra_simps)
    ultimately have "\<exists>j. 0 \<le> j \<and> j \<le> N \<and> y_of v = y_first + sign_y r * j \<and>
                  amax r \<le> ay_first + of_int j * inc_y r \<and>
                  (1 \<le> j \<longrightarrow> ay_first + of_int (j - 1) * inc_y r < amax r)"
      using k p(9,10) by blast
    with fin es(1) True show ?thesis by (intro exI [of _ "[(v, az - a)]"]) simp
  qed
qed

lemma trace_loop_z_last:
  assumes "trace_loop r lor v a ax ay az = Some res"
    and "0 < inc_z r" "0 \<le> inc_x r" "0 \<le> inc_y r"
    and "amax r \<le> az_first + of_int N * inc_z r" "0 \<le> N"
    and "a \<le> ax" "a \<le> ay" "a \<le> az"
    and "0 \<le> k" "z_of v = z_first + sign_z r * k" "az = az_first + of_int k * inc_z r"
        "1 \<le> k \<longrightarrow> az - inc_z r \<le> a"
  shows "\<exists>es. fst res = lor @ es \<and>
           (es \<noteq> [] \<longrightarrow>
             (\<exists>j. 0 \<le> j \<and> j \<le> N \<and> z_of (fst (last es)) = z_first + sign_z r * j \<and>
                  amax r \<le> az_first + of_int j * inc_z r \<and>
                  (1 \<le> j \<longrightarrow> az_first + of_int (j - 1) * inc_z r < amax r)) \<and>
             fst (snd (snd res)) \<le> az_first + of_int N * inc_z r)"
  using assms
proof (induction arbitrary: k rule: trace_loop_induct)
  case (stop lor v a ax ay az)
  then show ?case by simp
next
  case (step_x lor v a ax ay az res)
  note p = step_x.prems
  have k: "k \<le> N"
    by (rule index_in_range [OF p(1) p(5) p(9) p(12) p(11) step_x.hyps(1) p(4)])
  have sel: "ax \<le> az" using step_x.hyps by auto
  have bound: "az \<le> az_first + of_int N * inc_z r"
  proof -
    have "of_int k * inc_z r \<le> of_int N * inc_z r"
      using k p(1) by (intro mult_right_mono) simp_all
    with p(11) show ?thesis by simp
  qed
  have "\<exists>es. fst res = (lor @ [(v, ax - a)]) @ es \<and>
           (es \<noteq> [] \<longrightarrow>
             (\<exists>j. 0 \<le> j \<and> j \<le> N \<and> z_of (fst (last es)) = z_first + sign_z r * j \<and>
                  amax r \<le> az_first + of_int j * inc_z r \<and>
                  (1 \<le> j \<longrightarrow> az_first + of_int (j - 1) * inc_z r < amax r)) \<and>
             fst (snd (snd res)) \<le> az_first + of_int N * inc_z r)"
  proof (rule step_x.IH [where k = "k"])
    show "1 \<le> k \<longrightarrow> az - inc_z r \<le> ax"
      using p(6-8,12) by linarith
  qed (use p step_x.hyps in auto)
  then obtain es where es: "fst res = (lor @ [(v, ax - a)]) @ es"
    "es \<noteq> [] \<longrightarrow>
             (\<exists>j. 0 \<le> j \<and> j \<le> N \<and> z_of (fst (last es)) = z_first + sign_z r * j \<and>
                  amax r \<le> az_first + of_int j * inc_z r \<and>
                  (1 \<le> j \<longrightarrow> az_first + of_int (j - 1) * inc_z r < amax r)) \<and>
             fst (snd (snd res)) \<le> az_first + of_int N * inc_z r"
    by blast
  show ?case
  proof (cases "es = []")
    case False
    with es show ?thesis by (intro exI [of _ "(v, ax - a) # es"]) simp
  next
    case True
    have stopped: "\<not> ax < amax r"
    proof
      assume "ax < amax r"
      from trace_loop_enters [OF step_x.hyps(4) this] es(1) True show False by simp
    qed
    from trace_loop_stop [OF this] step_x.hyps(4)
    have "fst (snd (snd res)) = ax" by auto
    with sel bound have fin: "fst (snd (snd res)) \<le> az_first + of_int N * inc_z r" by simp
    from stopped sel p(11) have "amax r \<le> az_first + of_int k * inc_z r" by simp
    moreover have "1 \<le> k \<longrightarrow> az_first + of_int (k - 1) * inc_z r < amax r"
      using p(11,12) step_x.hyps(1) by (auto simp: algebra_simps)
    ultimately have "\<exists>j. 0 \<le> j \<and> j \<le> N \<and> z_of v = z_first + sign_z r * j \<and>
                  amax r \<le> az_first + of_int j * inc_z r \<and>
                  (1 \<le> j \<longrightarrow> az_first + of_int (j - 1) * inc_z r < amax r)"
      using k p(9,10) by blast
    with fin es(1) True show ?thesis by (intro exI [of _ "[(v, ax - a)]"]) simp
  qed
next
  case (step_y lor v a ax ay az res)
  note p = step_y.prems
  have k: "k \<le> N"
    by (rule index_in_range [OF p(1) p(5) p(9) p(12) p(11) step_y.hyps(1) p(4)])
  have sel: "ay \<le> az" using step_y.hyps by auto
  have bound: "az \<le> az_first + of_int N * inc_z r"
  proof -
    have "of_int k * inc_z r \<le> of_int N * inc_z r"
      using k p(1) by (intro mult_right_mono) simp_all
    with p(11) show ?thesis by simp
  qed
  have "\<exists>es. fst res = (lor @ [(v, ay - a)]) @ es \<and>
           (es \<noteq> [] \<longrightarrow>
             (\<exists>j. 0 \<le> j \<and> j \<le> N \<and> z_of (fst (last es)) = z_first + sign_z r * j \<and>
                  amax r \<le> az_first + of_int j * inc_z r \<and>
                  (1 \<le> j \<longrightarrow> az_first + of_int (j - 1) * inc_z r < amax r)) \<and>
             fst (snd (snd res)) \<le> az_first + of_int N * inc_z r)"
  proof (rule step_y.IH [where k = "k"])
    show "1 \<le> k \<longrightarrow> az - inc_z r \<le> ay"
      using p(6-8,12) by linarith
  qed (use p step_y.hyps in auto)
  then obtain es where es: "fst res = (lor @ [(v, ay - a)]) @ es"
    "es \<noteq> [] \<longrightarrow>
             (\<exists>j. 0 \<le> j \<and> j \<le> N \<and> z_of (fst (last es)) = z_first + sign_z r * j \<and>
                  amax r \<le> az_first + of_int j * inc_z r \<and>
                  (1 \<le> j \<longrightarrow> az_first + of_int (j - 1) * inc_z r < amax r)) \<and>
             fst (snd (snd res)) \<le> az_first + of_int N * inc_z r"
    by blast
  show ?case
  proof (cases "es = []")
    case False
    with es show ?thesis by (intro exI [of _ "(v, ay - a) # es"]) simp
  next
    case True
    have stopped: "\<not> ay < amax r"
    proof
      assume "ay < amax r"
      from trace_loop_enters [OF step_y.hyps(4) this] es(1) True show False by simp
    qed
    from trace_loop_stop [OF this] step_y.hyps(4)
    have "fst (snd (snd res)) = ay" by auto
    with sel bound have fin: "fst (snd (snd res)) \<le> az_first + of_int N * inc_z r" by simp
    from stopped sel p(11) have "amax r \<le> az_first + of_int k * inc_z r" by simp
    moreover have "1 \<le> k \<longrightarrow> az_first + of_int (k - 1) * inc_z r < amax r"
      using p(11,12) step_y.hyps(1) by (auto simp: algebra_simps)
    ultimately have "\<exists>j. 0 \<le> j \<and> j \<le> N \<and> z_of v = z_first + sign_z r * j \<and>
                  amax r \<le> az_first + of_int j * inc_z r \<and>
                  (1 \<le> j \<longrightarrow> az_first + of_int (j - 1) * inc_z r < amax r)"
      using k p(9,10) by blast
    with fin es(1) True show ?thesis by (intro exI [of _ "[(v, ay - a)]"]) simp
  qed
next
  case (step_z lor v a ax ay az res)
  note p = step_z.prems
  have k: "k \<le> N"
    by (rule index_in_range [OF p(1) p(5) p(9) p(12) p(11) step_z.hyps(1) p(4)])
  have sel: "az \<le> az" using step_z.hyps by auto
  have bound: "az \<le> az_first + of_int N * inc_z r"
  proof -
    have "of_int k * inc_z r \<le> of_int N * inc_z r"
      using k p(1) by (intro mult_right_mono) simp_all
    with p(11) show ?thesis by simp
  qed
  have "\<exists>es. fst res = (lor @ [(v, az - a)]) @ es \<and>
           (es \<noteq> [] \<longrightarrow>
             (\<exists>j. 0 \<le> j \<and> j \<le> N \<and> z_of (fst (last es)) = z_first + sign_z r * j \<and>
                  amax r \<le> az_first + of_int j * inc_z r \<and>
                  (1 \<le> j \<longrightarrow> az_first + of_int (j - 1) * inc_z r < amax r)) \<and>
             fst (snd (snd res)) \<le> az_first + of_int N * inc_z r)"
  proof (rule step_z.IH [where k = "k + 1"])
    show "az + inc_z r = az_first + of_int (k + 1) * inc_z r"
      using p(11) by (simp add: algebra_simps)
    show "z_of (CartesianCoordinate3D (z_of v + sign_z r) (y_of v) (x_of v)) = z_first + sign_z r * (k + 1)"
      using p(10) by (simp add: algebra_simps)
  qed (use p step_z.hyps in auto)
  then obtain es where es: "fst res = (lor @ [(v, az - a)]) @ es"
    "es \<noteq> [] \<longrightarrow>
             (\<exists>j. 0 \<le> j \<and> j \<le> N \<and> z_of (fst (last es)) = z_first + sign_z r * j \<and>
                  amax r \<le> az_first + of_int j * inc_z r \<and>
                  (1 \<le> j \<longrightarrow> az_first + of_int (j - 1) * inc_z r < amax r)) \<and>
             fst (snd (snd res)) \<le> az_first + of_int N * inc_z r"
    by blast
  show ?case
  proof (cases "es = []")
    case False
    with es show ?thesis by (intro exI [of _ "(v, az - a) # es"]) simp
  next
    case True
    have stopped: "\<not> az < amax r"
    proof
      assume "az < amax r"
      from trace_loop_enters [OF step_z.hyps(3) this] es(1) True show False by simp
    qed
    from trace_loop_stop [OF this] step_z.hyps(3)
    have "fst (snd (snd res)) = az" by auto
    with sel bound have fin: "fst (snd (snd res)) \<le> az_first + of_int N * inc_z r" by simp
    from stopped sel p(11) have "amax r \<le> az_first + of_int k * inc_z r" by simp
    moreover have "1 \<le> k \<longrightarrow> az_first + of_int (k - 1) * inc_z r < amax r"
      using p(11,12) step_z.hyps(1) by (auto simp: algebra_simps)
    ultimately have "\<exists>j. 0 \<le> j \<and> j \<le> N \<and> z_of v = z_first + sign_z r * j \<and>
                  amax r \<le> az_first + of_int j * inc_z r \<and>
                  (1 \<le> j \<longrightarrow> az_first + of_int (j - 1) * inc_z r < amax r)"
      using k p(9,10) by blast
    with fin es(1) True show ?thesis by (intro exI [of _ "[(v, az - a)]"]) simp
  qed
qed


lemma ray_exit_bound_x:
  assumes "\<not> zero_diff_in_x (ray_constants s t v n)" "0 < d12 (ray_constants s t v n)"
    and rt: "exactly_rounded t"
  shows "axend (ray_constants s t v n) * (10000/9999) \<le> d12 (ray_constants s t v n) + inc_x (ray_constants s t v n)"
proof -
  let ?r = "ray_constants s t v n"
  let ?Q = "(xmax ?r - x_of s) * of_int (sign_x ?r)"
  let ?d = "\<bar>x_of t - x_of s\<bar>"
  have sg: "sign_x ?r = (if 0 \<le> x_of t - x_of s then 1 else - 1)"
    by (simp add: ray_sign_x coord_minus_def)
  have d: "1 / 100000 < ?d"
    using assms(1) by (simp add: ray_zero_diff_in_x small_difference_def coord_minus_def)
  have inc: "inc_x ?r = d12 ?r / ?d"
    using assms(1) by (simp add: ray_inc_x coord_minus_def)
  have "?Q \<le> ?d + 1"
    using exit_factor_upper [OF sg exactly_rounded_x [OF rt]] by (simp only: ray_xmax)
  moreover have "0 < inc_x ?r" using assms(2) by (rule ray_inc_x_pos)
  ultimately have "?Q * inc_x ?r \<le> (?d + 1) * inc_x ?r"
    by (intro mult_right_mono) simp_all
  also have "(?d + 1) * inc_x ?r = d12 ?r + inc_x ?r"
  proof -
    have "?d \<noteq> 0" using d by linarith
    then show ?thesis by (simp add: inc distrib_right add_divide_distrib)
  qed
  finally have "?Q * inc_x ?r \<le> d12 ?r + inc_x ?r" .
  moreover have "axend ?r = ?Q * inc_x ?r * (9999/10000)"
    using assms(1) by (simp add: ray_axend mult_ac)
  ultimately show ?thesis by simp
qed

lemma entry_a_lower_x:
  assumes "\<not> zero_diff_in_x (ray_constants s t v n)" "0 \<le> d12 (ray_constants s t v n)"
    and rs: "exactly_rounded s"
  shows "- inc_x (ray_constants s t v n) \<le> entry_a (ray_constants s t v n) s"
proof -
  let ?r = "ray_constants s t v n"
  have "- 1 * inc_x ?r \<le> ((xmin ?r - x_of s) * of_int (sign_x ?r)) * inc_x ?r"
    by (rule mult_right_mono [OF ray_entry_factor_x(1) [OF rs] ray_inc_x_nonneg [OF assms(2)]])
  then have "- inc_x ?r \<le> (xmin ?r - x_of s) * inc_x ?r * of_int (sign_x ?r)"
    by (simp add: mult_ac)
  with assms(1) show ?thesis by (simp add: entry_a_eq le_max_iff_disj)
qed

lemma run_last_x:
  assumes run: "trace_loop (ray_constants s t v n) lor (entry_voxel (ray_constants s t v n) s)
       (entry_a (ray_constants s t v n) s) (entry_ax (ray_constants s t v n) s)
       (entry_ay (ray_constants s t v n) s) (entry_az (ray_constants s t v n) s) = Some res"
    and res: "fst res = lor @ es" and ne: "es \<noteq> []"
    and nz: "\<not> zero_diff_in_x (ray_constants s t v n)" and d: "0 < d12 (ray_constants s t v n)"
    and rs: "exactly_rounded s" and rt: "exactly_rounded t"
  shows "fst (snd (snd res)) \<le> axend (ray_constants s t v n) * (10000/9999)"
    and "\<exists>j. 0 \<le> j \<and>
           j \<le> (stir_round (x_of t) - stir_round (x_of s)) * sign_x (ray_constants s t v n) \<and>
           x_of (fst (last es)) = stir_round (x_of s) + sign_x (ray_constants s t v n) * j \<and>
           amax (ray_constants s t v n) \<le> entry_ax (ray_constants s t v n) s + of_int j * inc_x (ray_constants s t v n) \<and>
           (1 \<le> j \<longrightarrow>
              entry_ax (ray_constants s t v n) s + of_int (j - 1) * inc_x (ray_constants s t v n) < amax (ray_constants s t v n))"
proof -
  let ?r = "ray_constants s t v n"
  let ?N = "(stir_round (x_of t) - stir_round (x_of s)) * sign_x ?r"
  have d0: "0 \<le> d12 ?r" using d by simp
  note incs = ray_inc_x_nonneg [OF d0] ray_inc_y_nonneg [OF d0] ray_inc_z_nonneg [OF d0]
  have a: "entry_a ?r s \<le> entry_ax ?r s" "entry_a ?r s \<le> entry_ay ?r s"
    "entry_a ?r s \<le> entry_az ?r s"
    using entry_a_nonpos [OF d0 rs] entry_ax_nonneg [OF d0 rs] entry_ay_nonneg [OF d0 rs]
      entry_az_nonneg [OF d0 rs] by linarith+
  have "\<exists>es'. fst res = lor @ es' \<and>
           (es' \<noteq> [] \<longrightarrow>
             (\<exists>j. 0 \<le> j \<and> j \<le> ?N \<and>
                  x_of (fst (last es')) = stir_round (x_of s) + sign_x ?r * j \<and>
                  amax ?r \<le> entry_ax ?r s + of_int j * inc_x ?r \<and>
                  (1 \<le> j \<longrightarrow> entry_ax ?r s + of_int (j - 1) * inc_x ?r < amax ?r)) \<and>
             fst (snd (snd res)) \<le> entry_ax ?r s + of_int ?N * inc_x ?r)"
  proof (rule trace_loop_x_last [OF run, where k = 0 and x_first = "stir_round (x_of s)"
        and ax_first = "entry_ax ?r s" and N = ?N])
    show "0 < inc_x ?r" using d by (rule ray_inc_x_pos)
    show "amax ?r \<le> entry_ax ?r s + of_int ?N * inc_x ?r"
      using nz d rt by (rule ray_range_bound_x(1))
    show "0 \<le> ?N" by (rule ray_steps_nonneg_x [OF rs rt])
    show "x_of (entry_voxel ?r s) = stir_round (x_of s) + sign_x ?r * 0"
      by (simp add: entry_voxel_start [OF rs])
  qed (use incs a in simp_all)
  with res ne have *: "(\<exists>j. 0 \<le> j \<and> j \<le> ?N \<and>
                  x_of (fst (last es)) = stir_round (x_of s) + sign_x ?r * j \<and>
                  amax ?r \<le> entry_ax ?r s + of_int j * inc_x ?r \<and>
                  (1 \<le> j \<longrightarrow> entry_ax ?r s + of_int (j - 1) * inc_x ?r < amax ?r))"
      "fst (snd (snd res)) \<le> entry_ax ?r s + of_int ?N * inc_x ?r"
    by auto
  from *(2) ray_range_bound_x(2) [OF nz d rt]
  show "fst (snd (snd res)) \<le> axend ?r * (10000/9999)" by simp
  from *(1)
  show "\<exists>j. 0 \<le> j \<and> j \<le> ?N \<and>
           x_of (fst (last es)) = stir_round (x_of s) + sign_x ?r * j \<and>
           amax ?r \<le> entry_ax ?r s + of_int j * inc_x ?r \<and>
           (1 \<le> j \<longrightarrow> entry_ax ?r s + of_int (j - 1) * inc_x ?r < amax ?r)" .
qed


lemma ray_exit_bound_y:
  assumes "\<not> zero_diff_in_y (ray_constants s t v n)" "0 < d12 (ray_constants s t v n)"
    and rt: "exactly_rounded t"
  shows "ayend (ray_constants s t v n) * (10000/9999) \<le> d12 (ray_constants s t v n) + inc_y (ray_constants s t v n)"
proof -
  let ?r = "ray_constants s t v n"
  let ?Q = "(ymax ?r - y_of s) * of_int (sign_y ?r)"
  let ?d = "\<bar>y_of t - y_of s\<bar>"
  have sg: "sign_y ?r = (if 0 \<le> y_of t - y_of s then 1 else - 1)"
    by (simp add: ray_sign_y coord_minus_def)
  have d: "1 / 100000 < ?d"
    using assms(1) by (simp add: ray_zero_diff_in_y small_difference_def coord_minus_def)
  have inc: "inc_y ?r = d12 ?r / ?d"
    using assms(1) by (simp add: ray_inc_y coord_minus_def)
  have "?Q \<le> ?d + 1"
    using exit_factor_upper [OF sg exactly_rounded_y [OF rt]] by (simp only: ray_ymax)
  moreover have "0 < inc_y ?r" using assms(2) by (rule ray_inc_y_pos)
  ultimately have "?Q * inc_y ?r \<le> (?d + 1) * inc_y ?r"
    by (intro mult_right_mono) simp_all
  also have "(?d + 1) * inc_y ?r = d12 ?r + inc_y ?r"
  proof -
    have "?d \<noteq> 0" using d by linarith
    then show ?thesis by (simp add: inc distrib_right add_divide_distrib)
  qed
  finally have "?Q * inc_y ?r \<le> d12 ?r + inc_y ?r" .
  moreover have "ayend ?r = ?Q * inc_y ?r * (9999/10000)"
    using assms(1) by (simp add: ray_ayend mult_ac)
  ultimately show ?thesis by simp
qed

lemma entry_a_lower_y:
  assumes "\<not> zero_diff_in_y (ray_constants s t v n)" "0 \<le> d12 (ray_constants s t v n)"
    and rs: "exactly_rounded s"
  shows "- inc_y (ray_constants s t v n) \<le> entry_a (ray_constants s t v n) s"
proof -
  let ?r = "ray_constants s t v n"
  have "- 1 * inc_y ?r \<le> ((ymin ?r - y_of s) * of_int (sign_y ?r)) * inc_y ?r"
    by (rule mult_right_mono [OF ray_entry_factor_y(1) [OF rs] ray_inc_y_nonneg [OF assms(2)]])
  then have "- inc_y ?r \<le> (ymin ?r - y_of s) * inc_y ?r * of_int (sign_y ?r)"
    by (simp add: mult_ac)
  with assms(1) show ?thesis by (simp add: entry_a_eq le_max_iff_disj)
qed

lemma run_last_y:
  assumes run: "trace_loop (ray_constants s t v n) lor (entry_voxel (ray_constants s t v n) s)
       (entry_a (ray_constants s t v n) s) (entry_ax (ray_constants s t v n) s)
       (entry_ay (ray_constants s t v n) s) (entry_az (ray_constants s t v n) s) = Some res"
    and res: "fst res = lor @ es" and ne: "es \<noteq> []"
    and nz: "\<not> zero_diff_in_y (ray_constants s t v n)" and d: "0 < d12 (ray_constants s t v n)"
    and rs: "exactly_rounded s" and rt: "exactly_rounded t"
  shows "fst (snd (snd res)) \<le> ayend (ray_constants s t v n) * (10000/9999)"
    and "\<exists>j. 0 \<le> j \<and>
           j \<le> (stir_round (y_of t) - stir_round (y_of s)) * sign_y (ray_constants s t v n) \<and>
           y_of (fst (last es)) = stir_round (y_of s) + sign_y (ray_constants s t v n) * j \<and>
           amax (ray_constants s t v n) \<le> entry_ay (ray_constants s t v n) s + of_int j * inc_y (ray_constants s t v n) \<and>
           (1 \<le> j \<longrightarrow>
              entry_ay (ray_constants s t v n) s + of_int (j - 1) * inc_y (ray_constants s t v n) < amax (ray_constants s t v n))"
proof -
  let ?r = "ray_constants s t v n"
  let ?N = "(stir_round (y_of t) - stir_round (y_of s)) * sign_y ?r"
  have d0: "0 \<le> d12 ?r" using d by simp
  note incs = ray_inc_x_nonneg [OF d0] ray_inc_y_nonneg [OF d0] ray_inc_z_nonneg [OF d0]
  have a: "entry_a ?r s \<le> entry_ax ?r s" "entry_a ?r s \<le> entry_ay ?r s"
    "entry_a ?r s \<le> entry_az ?r s"
    using entry_a_nonpos [OF d0 rs] entry_ax_nonneg [OF d0 rs] entry_ay_nonneg [OF d0 rs]
      entry_az_nonneg [OF d0 rs] by linarith+
  have "\<exists>es'. fst res = lor @ es' \<and>
           (es' \<noteq> [] \<longrightarrow>
             (\<exists>j. 0 \<le> j \<and> j \<le> ?N \<and>
                  y_of (fst (last es')) = stir_round (y_of s) + sign_y ?r * j \<and>
                  amax ?r \<le> entry_ay ?r s + of_int j * inc_y ?r \<and>
                  (1 \<le> j \<longrightarrow> entry_ay ?r s + of_int (j - 1) * inc_y ?r < amax ?r)) \<and>
             fst (snd (snd res)) \<le> entry_ay ?r s + of_int ?N * inc_y ?r)"
  proof (rule trace_loop_y_last [OF run, where k = 0 and y_first = "stir_round (y_of s)"
        and ay_first = "entry_ay ?r s" and N = ?N])
    show "0 < inc_y ?r" using d by (rule ray_inc_y_pos)
    show "amax ?r \<le> entry_ay ?r s + of_int ?N * inc_y ?r"
      using nz d rt by (rule ray_range_bound_y(1))
    show "0 \<le> ?N" by (rule ray_steps_nonneg_y [OF rs rt])
    show "y_of (entry_voxel ?r s) = stir_round (y_of s) + sign_y ?r * 0"
      by (simp add: entry_voxel_start [OF rs])
  qed (use incs a in simp_all)
  with res ne have *: "(\<exists>j. 0 \<le> j \<and> j \<le> ?N \<and>
                  y_of (fst (last es)) = stir_round (y_of s) + sign_y ?r * j \<and>
                  amax ?r \<le> entry_ay ?r s + of_int j * inc_y ?r \<and>
                  (1 \<le> j \<longrightarrow> entry_ay ?r s + of_int (j - 1) * inc_y ?r < amax ?r))"
      "fst (snd (snd res)) \<le> entry_ay ?r s + of_int ?N * inc_y ?r"
    by auto
  from *(2) ray_range_bound_y(2) [OF nz d rt]
  show "fst (snd (snd res)) \<le> ayend ?r * (10000/9999)" by simp
  from *(1)
  show "\<exists>j. 0 \<le> j \<and> j \<le> ?N \<and>
           y_of (fst (last es)) = stir_round (y_of s) + sign_y ?r * j \<and>
           amax ?r \<le> entry_ay ?r s + of_int j * inc_y ?r \<and>
           (1 \<le> j \<longrightarrow> entry_ay ?r s + of_int (j - 1) * inc_y ?r < amax ?r)" .
qed


lemma ray_exit_bound_z:
  assumes "\<not> zero_diff_in_z (ray_constants s t v n)" "0 < d12 (ray_constants s t v n)"
    and rt: "exactly_rounded t"
  shows "azend (ray_constants s t v n) * (10000/9999) \<le> d12 (ray_constants s t v n) + inc_z (ray_constants s t v n)"
proof -
  let ?r = "ray_constants s t v n"
  let ?Q = "(zmax ?r - z_of s) * of_int (sign_z ?r)"
  let ?d = "\<bar>z_of t - z_of s\<bar>"
  have sg: "sign_z ?r = (if 0 \<le> z_of t - z_of s then 1 else - 1)"
    by (simp add: ray_sign_z coord_minus_def)
  have d: "1 / 100000 < ?d"
    using assms(1) by (simp add: ray_zero_diff_in_z small_difference_def coord_minus_def)
  have inc: "inc_z ?r = d12 ?r / ?d"
    using assms(1) by (simp add: ray_inc_z coord_minus_def)
  have "?Q \<le> ?d + 1"
    using exit_factor_upper [OF sg exactly_rounded_z [OF rt]] by (simp only: ray_zmax)
  moreover have "0 < inc_z ?r" using assms(2) by (rule ray_inc_z_pos)
  ultimately have "?Q * inc_z ?r \<le> (?d + 1) * inc_z ?r"
    by (intro mult_right_mono) simp_all
  also have "(?d + 1) * inc_z ?r = d12 ?r + inc_z ?r"
  proof -
    have "?d \<noteq> 0" using d by linarith
    then show ?thesis by (simp add: inc distrib_right add_divide_distrib)
  qed
  finally have "?Q * inc_z ?r \<le> d12 ?r + inc_z ?r" .
  moreover have "azend ?r = ?Q * inc_z ?r * (9999/10000)"
    using assms(1) by (simp add: ray_azend mult_ac)
  ultimately show ?thesis by simp
qed

lemma entry_a_lower_z:
  assumes "\<not> zero_diff_in_z (ray_constants s t v n)" "0 \<le> d12 (ray_constants s t v n)"
    and rs: "exactly_rounded s"
  shows "- inc_z (ray_constants s t v n) \<le> entry_a (ray_constants s t v n) s"
proof -
  let ?r = "ray_constants s t v n"
  have "- 1 * inc_z ?r \<le> ((zmin ?r - z_of s) * of_int (sign_z ?r)) * inc_z ?r"
    by (rule mult_right_mono [OF ray_entry_factor_z(1) [OF rs] ray_inc_z_nonneg [OF assms(2)]])
  then have "- inc_z ?r \<le> (zmin ?r - z_of s) * inc_z ?r * of_int (sign_z ?r)"
    by (simp add: mult_ac)
  with assms(1) show ?thesis by (simp add: entry_a_eq le_max_iff_disj)
qed

lemma run_last_z:
  assumes run: "trace_loop (ray_constants s t v n) lor (entry_voxel (ray_constants s t v n) s)
       (entry_a (ray_constants s t v n) s) (entry_ax (ray_constants s t v n) s)
       (entry_ay (ray_constants s t v n) s) (entry_az (ray_constants s t v n) s) = Some res"
    and res: "fst res = lor @ es" and ne: "es \<noteq> []"
    and nz: "\<not> zero_diff_in_z (ray_constants s t v n)" and d: "0 < d12 (ray_constants s t v n)"
    and rs: "exactly_rounded s" and rt: "exactly_rounded t"
  shows "fst (snd (snd res)) \<le> azend (ray_constants s t v n) * (10000/9999)"
    and "\<exists>j. 0 \<le> j \<and>
           j \<le> (stir_round (z_of t) - stir_round (z_of s)) * sign_z (ray_constants s t v n) \<and>
           z_of (fst (last es)) = stir_round (z_of s) + sign_z (ray_constants s t v n) * j \<and>
           amax (ray_constants s t v n) \<le> entry_az (ray_constants s t v n) s + of_int j * inc_z (ray_constants s t v n) \<and>
           (1 \<le> j \<longrightarrow>
              entry_az (ray_constants s t v n) s + of_int (j - 1) * inc_z (ray_constants s t v n) < amax (ray_constants s t v n))"
proof -
  let ?r = "ray_constants s t v n"
  let ?N = "(stir_round (z_of t) - stir_round (z_of s)) * sign_z ?r"
  have d0: "0 \<le> d12 ?r" using d by simp
  note incs = ray_inc_x_nonneg [OF d0] ray_inc_y_nonneg [OF d0] ray_inc_z_nonneg [OF d0]
  have a: "entry_a ?r s \<le> entry_ax ?r s" "entry_a ?r s \<le> entry_ay ?r s"
    "entry_a ?r s \<le> entry_az ?r s"
    using entry_a_nonpos [OF d0 rs] entry_ax_nonneg [OF d0 rs] entry_ay_nonneg [OF d0 rs]
      entry_az_nonneg [OF d0 rs] by linarith+
  have "\<exists>es'. fst res = lor @ es' \<and>
           (es' \<noteq> [] \<longrightarrow>
             (\<exists>j. 0 \<le> j \<and> j \<le> ?N \<and>
                  z_of (fst (last es')) = stir_round (z_of s) + sign_z ?r * j \<and>
                  amax ?r \<le> entry_az ?r s + of_int j * inc_z ?r \<and>
                  (1 \<le> j \<longrightarrow> entry_az ?r s + of_int (j - 1) * inc_z ?r < amax ?r)) \<and>
             fst (snd (snd res)) \<le> entry_az ?r s + of_int ?N * inc_z ?r)"
  proof (rule trace_loop_z_last [OF run, where k = 0 and z_first = "stir_round (z_of s)"
        and az_first = "entry_az ?r s" and N = ?N])
    show "0 < inc_z ?r" using d by (rule ray_inc_z_pos)
    show "amax ?r \<le> entry_az ?r s + of_int ?N * inc_z ?r"
      using nz d rt by (rule ray_range_bound_z(1))
    show "0 \<le> ?N" by (rule ray_steps_nonneg_z [OF rs rt])
    show "z_of (entry_voxel ?r s) = stir_round (z_of s) + sign_z ?r * 0"
      by (simp add: entry_voxel_start [OF rs])
  qed (use incs a in simp_all)
  with res ne have *: "(\<exists>j. 0 \<le> j \<and> j \<le> ?N \<and>
                  z_of (fst (last es)) = stir_round (z_of s) + sign_z ?r * j \<and>
                  amax ?r \<le> entry_az ?r s + of_int j * inc_z ?r \<and>
                  (1 \<le> j \<longrightarrow> entry_az ?r s + of_int (j - 1) * inc_z ?r < amax ?r))"
      "fst (snd (snd res)) \<le> entry_az ?r s + of_int ?N * inc_z ?r"
    by auto
  from *(2) ray_range_bound_z(2) [OF nz d rt]
  show "fst (snd (snd res)) \<le> azend ?r * (10000/9999)" by simp
  from *(1)
  show "\<exists>j. 0 \<le> j \<and> j \<le> ?N \<and>
           z_of (fst (last es)) = stir_round (z_of s) + sign_z ?r * j \<and>
           amax ?r \<le> entry_az ?r s + of_int j * inc_z ?r \<and>
           (1 \<le> j \<longrightarrow> entry_az ?r s + of_int (j - 1) * inc_z ?r < amax ?r)" .
qed



lemma run_sum_le_x:
  assumes run: "trace_loop (ray_constants s t v n) lor (entry_voxel (ray_constants s t v n) s)
       (entry_a (ray_constants s t v n) s) (entry_ax (ray_constants s t v n) s)
       (entry_ay (ray_constants s t v n) s) (entry_az (ray_constants s t v n) s) = Some res"
    and res: "fst res = lor @ es"
    and sum: "sum_list (map snd es) = fst (snd (snd res)) - entry_a (ray_constants s t v n) s"
    and nz: "\<not> zero_diff_in_x (ray_constants s t v n)" and d: "0 < d12 (ray_constants s t v n)"
    and rs: "exactly_rounded s" and rt: "exactly_rounded t"
  shows "sum_list (map snd es) \<le> d12 (ray_constants s t v n) + 2 * inc_x (ray_constants s t v n)"
proof (cases "es = []")
  case True
  have "0 < inc_x (ray_constants s t v n)" using d by (rule ray_inc_x_pos)
  with True d show ?thesis by simp
next
  case False
  have d0: "0 \<le> d12 (ray_constants s t v n)" using d by simp
  from run_last_x(1) [OF run res False nz d rs rt] ray_exit_bound_x [OF nz d rt]
    entry_a_lower_x [OF nz d0 rs] sum
  show ?thesis by linarith
qed

lemma run_sum_le_y:
  assumes run: "trace_loop (ray_constants s t v n) lor (entry_voxel (ray_constants s t v n) s)
       (entry_a (ray_constants s t v n) s) (entry_ax (ray_constants s t v n) s)
       (entry_ay (ray_constants s t v n) s) (entry_az (ray_constants s t v n) s) = Some res"
    and res: "fst res = lor @ es"
    and sum: "sum_list (map snd es) = fst (snd (snd res)) - entry_a (ray_constants s t v n) s"
    and nz: "\<not> zero_diff_in_y (ray_constants s t v n)" and d: "0 < d12 (ray_constants s t v n)"
    and rs: "exactly_rounded s" and rt: "exactly_rounded t"
  shows "sum_list (map snd es) \<le> d12 (ray_constants s t v n) + 2 * inc_y (ray_constants s t v n)"
proof (cases "es = []")
  case True
  have "0 < inc_y (ray_constants s t v n)" using d by (rule ray_inc_y_pos)
  with True d show ?thesis by simp
next
  case False
  have d0: "0 \<le> d12 (ray_constants s t v n)" using d by simp
  from run_last_y(1) [OF run res False nz d rs rt] ray_exit_bound_y [OF nz d rt]
    entry_a_lower_y [OF nz d0 rs] sum
  show ?thesis by linarith
qed

lemma run_sum_le_z:
  assumes run: "trace_loop (ray_constants s t v n) lor (entry_voxel (ray_constants s t v n) s)
       (entry_a (ray_constants s t v n) s) (entry_ax (ray_constants s t v n) s)
       (entry_ay (ray_constants s t v n) s) (entry_az (ray_constants s t v n) s) = Some res"
    and res: "fst res = lor @ es"
    and sum: "sum_list (map snd es) = fst (snd (snd res)) - entry_a (ray_constants s t v n) s"
    and nz: "\<not> zero_diff_in_z (ray_constants s t v n)" and d: "0 < d12 (ray_constants s t v n)"
    and rs: "exactly_rounded s" and rt: "exactly_rounded t"
  shows "sum_list (map snd es) \<le> d12 (ray_constants s t v n) + 2 * inc_z (ray_constants s t v n)"
proof (cases "es = []")
  case True
  have "0 < inc_z (ray_constants s t v n)" using d by (rule ray_inc_z_pos)
  with True d show ?thesis by simp
next
  case False
  have d0: "0 \<le> d12 (ray_constants s t v n)" using d by simp
  from run_last_z(1) [OF run res False nz d rs rt] ray_exit_bound_z [OF nz d rt]
    entry_a_lower_z [OF nz d0 rs] sum
  show ?thesis by linarith
qed

lemma all_near_zero_run:
  assumes run: "trace_loop (ray_constants s t v n) lor (entry_voxel (ray_constants s t v n) s)
       (entry_a (ray_constants s t v n) s) (entry_ax (ray_constants s t v n) s)
       (entry_ay (ray_constants s t v n) s) (entry_az (ray_constants s t v n) s) = Some res"
    and z: "zero_diff_in_x (ray_constants s t v n)" "zero_diff_in_y (ray_constants s t v n)"
      "zero_diff_in_z (ray_constants s t v n)"
    and d: "0 < d12 (ray_constants s t v n)"
  shows "fst (snd (snd res)) = d12 (ray_constants s t v n) * 1000000"
    and "entry_a (ray_constants s t v n) s = - (d12 (ray_constants s t v n) * 1000000)"
proof -
  let ?r = "ray_constants s t v n"
  let ?S = "d12 ?r * 1000000"
  have S: "0 < ?S" using d by simp
  have incs: "inc_x ?r = ?S" "inc_y ?r = ?S" "inc_z ?r = ?S"
    using z by (simp_all add: ray_inc_x ray_inc_y ray_inc_z)
  have ends: "axend ?r = ?S" "ayend ?r = ?S" "azend ?r = ?S"
    using z by (simp_all add: ray_axend ray_ayend ray_azend)
  then have amax: "amax ?r = ?S" by (simp add: ray_amax)
  have a: "entry_a ?r s = - ?S"
    using z by (simp add: entry_a_eq incs)
  have p: "entry_ax ?r s = ?S" "entry_ay ?r s = ?S" "entry_az ?r s = ?S"
    using z by (simp_all add: entry_ax_eq entry_ay_eq entry_az_eq ends)
  have first: "- ?S < amax ?r" using S amax by linarith
  have stop: "\<not> ?S < amax ?r" using amax by simp
  from run have "trace_loop ?r lor (entry_voxel ?r s) (- ?S) ?S ?S ?S = Some res"
    by (simp only: a p)
  with first have "trace_loop ?r (lor @ [(entry_voxel ?r s, ?S - - ?S)])
      (CartesianCoordinate3D (z_of (entry_voxel ?r s) + sign_z ?r) (y_of (entry_voxel ?r s))
         (x_of (entry_voxel ?r s)))
      ?S ?S ?S (?S + inc_z ?r) = Some res"
    by (subst (asm) trace_loop.simps) simp
  with trace_loop_stop [OF stop] show "fst (snd (snd res)) = ?S" by auto
  show "entry_a ?r s = - ?S" by (rule a)
qed

lemma run_sum_bounds:
  assumes run: "trace_loop (ray_constants s t v n) lor (entry_voxel (ray_constants s t v n) s)
       (entry_a (ray_constants s t v n) s) (entry_ax (ray_constants s t v n) s)
       (entry_ay (ray_constants s t v n) s) (entry_az (ray_constants s t v n) s) = Some res"
    and res: "fst res = lor @ es"
    and sum: "sum_list (map snd es) = fst (snd (snd res)) - entry_a (ray_constants s t v n) s"
    and stop: "\<not> fst (snd (snd res)) < amax (ray_constants s t v n)"
    and d: "0 \<le> d12 (ray_constants s t v n)"
    and rs: "exactly_rounded s" and rt: "exactly_rounded t"
  shows "9999/10000 * d12 (ray_constants s t v n) \<le> sum_list (map snd es)"
    and "sum_list (map snd es)
       \<le> d12 (ray_constants s t v n)
          + 2 * min (inc_x (ray_constants s t v n)) (min (inc_y (ray_constants s t v n)) (inc_z (ray_constants s t v n)))"
proof -
  let ?r = "ray_constants s t v n"
  let ?S = "d12 ?r * 1000000"
  from ray_amax_reaches [OF d rt] entry_a_nonpos [OF d rs] sum stop
  show "9999/10000 * d12 ?r \<le> sum_list (map snd es)" by linarith
  show "sum_list (map snd es) \<le> d12 ?r + 2 * min (inc_x ?r) (min (inc_y ?r) (inc_z ?r))"
  proof (cases "d12 ?r = 0")
    case True
    from trace_loop_stop [OF entry_no_run [OF True]] run
    have "fst (snd (snd res)) = entry_a ?r s" by auto
    with sum True show ?thesis by (simp add: ray_inc_x ray_inc_y ray_inc_z)
  next
    case False
    with d have pos: "0 < d12 ?r" by simp
    note nx = run_sum_le_x [OF run res sum _ pos rs rt]
      and ny = run_sum_le_y [OF run res sum _ pos rs rt]
      and nz = run_sum_le_z [OF run res sum _ pos rs rt]
    have small: "inc_x ?r \<le> ?S" "inc_y ?r \<le> ?S" "inc_z ?r \<le> ?S"
      using ray_inc_x_below [OF _ pos] ray_inc_y_below [OF _ pos]
        ray_inc_z_below [OF _ pos] pos
      by (auto simp add: ray_inc_x ray_inc_y ray_inc_z)
    have sentinel: "sum_list (map snd es) \<le> d12 ?r + 2 * ?S"
    proof (cases "zero_diff_in_x ?r \<and> zero_diff_in_y ?r \<and> zero_diff_in_z ?r")
      case True
      with all_near_zero_run [OF run _ _ _ pos] sum pos show ?thesis by simp
    next
      case False
      with nx ny nz small show ?thesis by fastforce
    qed
    have "sum_list (map snd es) \<le> d12 ?r + 2 * inc_x ?r"
      using nx sentinel by (cases "zero_diff_in_x ?r") (simp_all add: ray_inc_x)
    moreover have "sum_list (map snd es) \<le> d12 ?r + 2 * inc_y ?r"
      using ny sentinel by (cases "zero_diff_in_y ?r") (simp_all add: ray_inc_y)
    moreover have "sum_list (map snd es) \<le> d12 ?r + 2 * inc_z ?r"
      using nz sentinel by (cases "zero_diff_in_z ?r") (simp_all add: ray_inc_z)
    ultimately show ?thesis by (simp add: min_def)
  qed
qed



section \<open>Evaluating a call on concrete input\<close>

lemma sqrt_9: "sqrt 9 = 3"
  using real_sqrt_abs [of 3] by simp

lemma sqrt_36: "sqrt 36 = 6"
  using real_sqrt_abs [of 6] by simp

lemma sqrt_100: "sqrt 100 = 10"
  using real_sqrt_abs [of 10] by simp


lemma coord_norm_x_axis: "coord_norm (CartesianCoordinate3D 0 0 c) = \<bar>c\<bar>"
  by (simp add: coord_norm_def)

lemmas run_simps =
  RayTraceVoxelsOnCartesianGrid_def ray_simps coord_minus_def coord_times_def
  round_simps small_difference_def assert_lines_128_130_def assert_lines_167_169_def
  initial_state_def trace_loop.simps

section \<open>Scenario A\<close>

text \<open>
  C6, as the code has it.  With start \<open>(0.5, 0.5, 0.5)\<close>, stop \<open>(3.5, 0.5, 0.5)\<close>, unit voxel
  size and normalisation 1 the call appends four entries, each of length 1; the voxel
  x-index steps 1, 2, 3, 4 while the y and z indices stay 1.  (Voxel \<open>i\<close> is the interval
  from \<open>i - 1/2\<close> to \<open>i + 1/2\<close>, and both 0.5 and 3.5 round away from zero.)  This holds
  for any accumulator and in both builds.
\<close>

theorem scenario_A_four_entries:
  "RayTraceVoxelsOnCartesianGrid NDEBUG lor
     (CartesianCoordinate3D (1/2) (1/2) (1/2)) (CartesianCoordinate3D (1/2) (1/2) (7/2))
     (CartesianCoordinate3D 1 1 1) 1 =
   Some (Inr (lor @ [(CartesianCoordinate3D 1 1 1, 1), (CartesianCoordinate3D 1 1 2, 1),
                     (CartesianCoordinate3D 1 1 3, 1), (CartesianCoordinate3D 1 1 4, 1)]))"
  by (cases NDEBUG) (simp_all add: run_simps coord_norm_x_axis)

text \<open>
  C6 as stated (three entries, x-index 0, 1, 2) fails: on an empty accumulator the call
  returns four entries, with x-index 1, 2, 3, 4.
\<close>

theorem scenario_A_not_three_entries:
  "RayTraceVoxelsOnCartesianGrid False []
     (CartesianCoordinate3D (1/2) (1/2) (1/2)) (CartesianCoordinate3D (1/2) (1/2) (7/2))
     (CartesianCoordinate3D 1 1 1) 1 =
   Some (Inr [(CartesianCoordinate3D 1 1 1, 1), (CartesianCoordinate3D 1 1 2, 1),
              (CartesianCoordinate3D 1 1 3, 1), (CartesianCoordinate3D 1 1 4, 1)])"
  by (simp add: run_simps coord_norm_x_axis)

section \<open>Face adjacency of consecutive entries\<close>

text \<open>
  C2.  Whenever a call returns, the entries it appended form a path of face-adjacent voxels:
  any two consecutive entries have voxel indices that differ by exactly one unit along
  exactly one axis (so there is no diagonal jump, no skipped voxel and no repeated index).
  That every call with a non-negative normalisation constant returns, in exact arithmetic,
  is lemma \<open>RayTrace_returns\<close>.
\<close>

theorem face_adjacency:
  assumes "RayTraceVoxelsOnCartesianGrid NDEBUG lor start_point stop_point voxel_size
             normalisation_constant = Some (Inr lor')"
  shows "\<exists>es. lor' = lor @ es \<and>
           (\<forall>i. Suc i < length es \<longrightarrow> face_adjacent (fst (es ! i)) (fst (es ! Suc i)))"
proof -
  from assms obtain res where
    run: "trace_loop (ray_constants start_point stop_point voxel_size normalisation_constant) lor
       (entry_voxel (ray_constants start_point stop_point voxel_size normalisation_constant) start_point)
       (entry_a (ray_constants start_point stop_point voxel_size normalisation_constant) start_point)
       (entry_ax (ray_constants start_point stop_point voxel_size normalisation_constant) start_point)
       (entry_ay (ray_constants start_point stop_point voxel_size normalisation_constant) start_point)
       (entry_az (ray_constants start_point stop_point voxel_size normalisation_constant) start_point)
         = Some res"
    and res: "fst res = lor'"
    by (rule RayTrace_success)
  from trace_loop_face_adjacent [OF run ray_sign_x_cases ray_sign_y_cases ray_sign_z_cases] res
  obtain es where "lor' = lor @ es" "successively face_adjacent (map fst es)"
    by auto
  then show ?thesis
    by (auto simp: successively_conv_nth)
qed

text \<open>
  Witness for C2: a diagonal segment through two voxel corners.  The call returns five
  entries, and the theorem applies to them.
\<close>

theorem face_adjacency_witness:
  "RayTraceVoxelsOnCartesianGrid False []
     (CartesianCoordinate3D 0 0 0) (CartesianCoordinate3D 0 2 2) (CartesianCoordinate3D 1 4 3) 1 =
   Some (Inr [(CartesianCoordinate3D 0 0 0, 5), (CartesianCoordinate3D 0 1 0, 0),
              (CartesianCoordinate3D 0 1 1, 5), (CartesianCoordinate3D 0 2 1, 0),
              (CartesianCoordinate3D 0 2 2, 5)])
   \<and> (\<exists>es. ([(CartesianCoordinate3D 0 0 0, 5), (CartesianCoordinate3D 0 1 0, 0),
              (CartesianCoordinate3D 0 1 1, 5), (CartesianCoordinate3D 0 2 1, 0),
              (CartesianCoordinate3D 0 2 2, 5)] :: ProjMatrixElemsForOneBin) = [] @ es \<and>
           (\<forall>i. Suc i < length es \<longrightarrow> face_adjacent (fst (es ! i)) (fst (es ! Suc i))))"
proof -
  have run: "RayTraceVoxelsOnCartesianGrid False []
     (CartesianCoordinate3D 0 0 0) (CartesianCoordinate3D 0 2 2) (CartesianCoordinate3D 1 4 3) 1 =
   Some (Inr [(CartesianCoordinate3D 0 0 0, 5), (CartesianCoordinate3D 0 1 0, 0),
              (CartesianCoordinate3D 0 1 1, 5), (CartesianCoordinate3D 0 2 1, 0),
              (CartesianCoordinate3D 0 2 2, 5)])"
    by (simp add: run_simps coord_norm_def sqrt_100)
  from run face_adjacency [OF run] show ?thesis ..
qed

section \<open>Non-negative weights\<close>




section \<open>Axis-parallel segments\<close>




section \<open>The sum of the lengths\<close>

text \<open>
  C1 as stated fails.  In Scenario A with normalisation 2 the four appended weights are 2
  each, so the unnormalised lengths add up to 4, while the distance between start and stop
  (scaled by the voxel size) is 3: the difference is far outside a relative tolerance of
  \<open>1e-4\<close>.  All the numbers involved are exactly representable.
\<close>

theorem length_sum_exceeds_distance:
  "RayTraceVoxelsOnCartesianGrid False []
     (CartesianCoordinate3D (1/2) (1/2) (1/2)) (CartesianCoordinate3D (1/2) (1/2) (7/2))
     (CartesianCoordinate3D 1 1 1) 2 =
   Some (Inr [(CartesianCoordinate3D 1 1 1, 2), (CartesianCoordinate3D 1 1 2, 2),
              (CartesianCoordinate3D 1 1 3, 2), (CartesianCoordinate3D 1 1 4, 2)])
   \<and> (2 / 2 + 2 / 2 + 2 / 2 + 2 / 2) = (4::real)
   \<and> coord_norm (coord_times
        (coord_minus (CartesianCoordinate3D (1/2) (1/2) (7/2)) (CartesianCoordinate3D (1/2) (1/2) (1/2)))
        (CartesianCoordinate3D 1 1 1)) = 3
   \<and> \<not> \<bar>4 - 3\<bar> \<le> (1/10000) * (3::real)"
  by (simp add: run_simps coord_norm_x_axis)

text \<open>
  C1, as the code has it.  The weights appended by a call telescope: their sum is
  \<open>a_end - a_start\<close>, the values of \<open>a\<close> at loop exit and at loop entry (lemma
  \<open>trace_loop_telescope\<close>).  The traversal starts where the line enters the start voxel and
  ends where it leaves the stop voxel, less the safety margin of 0.01 per cent, so whole
  chords are counted for the two end voxels.  For a non-negative normalisation constant and
  start and stop points that are rounded exactly, the sum of the weights is therefore at
  least 0.9999 times \<open>d12\<close> (the scaled distance times the normalisation constant) and
  exceeds \<open>d12\<close> by at most two increments: an increment \<open>inc\<close> is the length of the line
  between two consecutive planes of one axis, which no chord inside a voxel exceeds.
\<close>

theorem length_sum_bounds:
  assumes "RayTraceVoxelsOnCartesianGrid NDEBUG lor start_point stop_point voxel_size
             normalisation_constant = Some (Inr lor')"
    and "0 \<le> normalisation_constant"
    and "exactly_rounded start_point" "exactly_rounded stop_point"
  shows "\<exists>es. lor' = lor @ es \<and>
     9999/10000 * (coord_norm (coord_times (coord_minus stop_point start_point) voxel_size) * normalisation_constant)
       \<le> sum_list (map snd es) \<and>
     sum_list (map snd es)
       \<le> coord_norm (coord_times (coord_minus stop_point start_point) voxel_size) * normalisation_constant
          + 2 * min (inc_x (ray_constants start_point stop_point voxel_size normalisation_constant))
                  (min (inc_y (ray_constants start_point stop_point voxel_size normalisation_constant))
                       (inc_z (ray_constants start_point stop_point voxel_size normalisation_constant)))"
proof -
  let ?r = "ray_constants start_point stop_point voxel_size normalisation_constant"
  from assms(1) obtain res where
    run: "trace_loop ?r lor (entry_voxel ?r start_point) (entry_a ?r start_point)
       (entry_ax ?r start_point) (entry_ay ?r start_point) (entry_az ?r start_point) = Some res"
    and res: "fst res = lor'"
    by (rule RayTrace_success)
  from trace_loop_telescope [OF run] res obtain es where
    es: "lor' = lor @ es"
      "sum_list (map snd es) = fst (snd (snd res)) - entry_a ?r start_point"
      "\<not> fst (snd (snd res)) < amax ?r"
    by auto
  from res es(1) have "fst res = lor @ es" by simp
  from run_sum_bounds [OF run this es(2,3) ray_d12_nonneg [OF assms(2)] assms(3,4)] es(1)
  show ?thesis by (intro exI [of _ es]) (simp add: ray_d12)
qed

text \<open>
  Witness for C1: Scenario A with normalisation 2 again; the sum is 8, between 5.9994 and
  10.
\<close>

theorem length_sum_bounds_witness:
  "RayTraceVoxelsOnCartesianGrid False []
     (CartesianCoordinate3D (1/2) (1/2) (1/2)) (CartesianCoordinate3D (1/2) (1/2) (7/2))
     (CartesianCoordinate3D 1 1 1) 2 =
   Some (Inr [(CartesianCoordinate3D 1 1 1, 2), (CartesianCoordinate3D 1 1 2, 2),
              (CartesianCoordinate3D 1 1 3, 2), (CartesianCoordinate3D 1 1 4, 2)])
   \<and> (0::real) \<le> 2
   \<and> exactly_rounded (CartesianCoordinate3D (1/2) (1/2) (1/2))
   \<and> exactly_rounded (CartesianCoordinate3D (1/2) (1/2) (7/2))
   \<and> (\<exists>es. ([(CartesianCoordinate3D 1 1 1, 2), (CartesianCoordinate3D 1 1 2, 2),
              (CartesianCoordinate3D 1 1 3, 2), (CartesianCoordinate3D 1 1 4, 2)] :: ProjMatrixElemsForOneBin) = [] @ es \<and>
     9999/10000 * (coord_norm (coord_times (coord_minus (CartesianCoordinate3D (1/2) (1/2) (7/2)) (CartesianCoordinate3D (1/2) (1/2) (1/2))) (CartesianCoordinate3D 1 1 1)) * 2)
       \<le> sum_list (map snd es) \<and>
     sum_list (map snd es)
       \<le> coord_norm (coord_times (coord_minus (CartesianCoordinate3D (1/2) (1/2) (7/2)) (CartesianCoordinate3D (1/2) (1/2) (1/2))) (CartesianCoordinate3D 1 1 1)) * 2
          + 2 * min (inc_x (ray_constants (CartesianCoordinate3D (1/2) (1/2) (1/2)) (CartesianCoordinate3D (1/2) (1/2) (7/2)) (CartesianCoordinate3D 1 1 1) 2))
                  (min (inc_y (ray_constants (CartesianCoordinate3D (1/2) (1/2) (1/2)) (CartesianCoordinate3D (1/2) (1/2) (7/2)) (CartesianCoordinate3D 1 1 1) 2))
                       (inc_z (ray_constants (CartesianCoordinate3D (1/2) (1/2) (1/2)) (CartesianCoordinate3D (1/2) (1/2) (7/2)) (CartesianCoordinate3D 1 1 1) 2))))"
proof -
  have run: "RayTraceVoxelsOnCartesianGrid False []
     (CartesianCoordinate3D (1/2) (1/2) (1/2)) (CartesianCoordinate3D (1/2) (1/2) (7/2))
     (CartesianCoordinate3D 1 1 1) 2 =
   Some (Inr [(CartesianCoordinate3D 1 1 1, 2), (CartesianCoordinate3D 1 1 2, 2),
              (CartesianCoordinate3D 1 1 3, 2), (CartesianCoordinate3D 1 1 4, 2)])"
    by (simp add: run_simps coord_norm_x_axis)
  have n: "(0::real) \<le> 2" by simp
  have rs: "exactly_rounded (CartesianCoordinate3D (1/2) (1/2) (1/2))"
    and rt: "exactly_rounded (CartesianCoordinate3D (1/2) (1/2) (7/2))"
    by (simp_all add: exactly_rounded_def rounds_exactly_def round_simps)
  from run n rs rt length_sum_bounds [OF run n rs rt] show ?thesis by (intro conjI)
qed

section \<open>Scaling by the normalisation constant\<close>




section \<open>Start point equal to stop point\<close>

text \<open>
  C3 fails in a build with assertions.  When start and stop coincide all three differences
  are zero, so \<open>axend\<close>, \<open>ayend\<close> and \<open>azend\<close> are the same sentinel and \<open>amax\<close> is equal
  to them: the assertion at line 128, which demands \<open>axend > amax\<close>, fails for every
  such input, whatever the voxel size and the normalisation constant.  (With assertions
  compiled out the call returns and appends nothing: lemma
  \<open>degenerate_segment_without_assertions\<close>.)
\<close>

theorem degenerate_segment_fails_assertion:
  "RayTraceVoxelsOnCartesianGrid False lor p p voxel_size normalisation_constant =
     Some (Inl (Assertion_failed 128))"
  by (simp add: RayTraceVoxelsOnCartesianGrid_def assert_lines_128_130_def ray_simps
      coord_minus_def small_difference_def)

section \<open>The assertions\<close>

text \<open>
  C9 fails: the assertions do not hold for every input with positive voxel size.  For the
  segment from \<open>(0, 0, 0)\<close> to \<open>x = 0.000005\<close>, with unit voxel size and normalisation 1,
  every axis is classified as near-zero, the three end values are the same sentinel, and
  the assertion at line 128 fails.  (Lemma \<open>near_zero_segment_fails_assertion\<close> shows this
  for every segment whose three differences are at most \<open>small_difference\<close>; lemma
  \<open>assertions_hold\<close> shows that all six assertions hold when \<open>d12\<close> is positive, at least
  one axis is not near-zero and the stop point is rounded exactly.)
\<close>

theorem short_segment_fails_assertion:
  "RayTraceVoxelsOnCartesianGrid False []
     (CartesianCoordinate3D 0 0 0) (CartesianCoordinate3D 0 0 (1/200000))
     (CartesianCoordinate3D 1 1 1) 1 = Some (Inl (Assertion_failed 128))"
  by (simp add: RayTraceVoxelsOnCartesianGrid_def assert_lines_128_130_def ray_simps
      coord_minus_def small_difference_def)

text \<open>
  With the assertions compiled out the same call takes the z sentinel as the next crossing
  and appends one entry of weight 10, two million times the length of the segment.
\<close>

lemma short_segment_without_assertions:
  "RayTraceVoxelsOnCartesianGrid True []
     (CartesianCoordinate3D 0 0 0) (CartesianCoordinate3D 0 0 (1/200000))
     (CartesianCoordinate3D 1 1 1) 1 = Some (Inr [(CartesianCoordinate3D 0 0 0, 10)])"
  by (simp add: run_simps coord_norm_x_axis)

section \<open>Ties between pending crossings\<close>

text \<open>
  C5 as stated fails.  A segment along the space diagonal of the voxels passes through
  voxel corners where the three pending crossings are equal.  At each corner the loop
  appends three entries, not one, and it steps along z first, then y, then x: the second
  and third entries (weight 0) are for the voxels reached by the z step and by the z and
  y steps.
\<close>

theorem corner_crossing_three_entries:
  "RayTraceVoxelsOnCartesianGrid False []
     (CartesianCoordinate3D 0 0 0) (CartesianCoordinate3D 2 2 2) (CartesianCoordinate3D 1 2 2) 1 =
   Some (Inr [(CartesianCoordinate3D 0 0 0, 3), (CartesianCoordinate3D 1 0 0, 0),
              (CartesianCoordinate3D 1 1 0, 0), (CartesianCoordinate3D 1 1 1, 3),
              (CartesianCoordinate3D 2 1 1, 0), (CartesianCoordinate3D 2 2 1, 0),
              (CartesianCoordinate3D 2 2 2, 3)])"
  by (simp add: run_simps coord_norm_def sqrt_36)

text \<open>
  C5, as the code has it.  The comparisons are strict and x is tested first, so a tie is
  always resolved in favour of the axis tested later: z before y before x.  Every
  iteration appends exactly one entry.  So when two or three pending crossings coincide at
  the minimal value \<open>c\<close> inside the loop (that is, while \<open>a < amax\<close>; the increments are
  positive), the loop first steps along the axis of highest priority and appends the
  current voxel with weight \<open>c - a\<close>.  If \<open>c < amax\<close> it goes on and appends one more
  entry, of weight zero, for every further coinciding crossing, for the voxels passed
  through at the corner: two entries for a tie of two crossings, three for a tie of all
  three.  If \<open>amax \<le> c\<close> the loop stops after the first entry.  The eight statements
  are the ties x = y, x = z, y = z and x = y = z, each below and not below \<open>amax\<close>.
\<close>

theorem tie_break_order:
  assumes "a < amax r"
    and "0 < inc_x r" "0 < inc_y r" "0 < inc_z r"
  shows "(c < az \<and> c < amax r \<longrightarrow>
      trace_loop r lor v a c c az =
      trace_loop r
        (lor @ [(v, c - a),
                (CartesianCoordinate3D (z_of v) (y_of v + sign_y r) (x_of v), 0)])
        (CartesianCoordinate3D (z_of v) (y_of v + sign_y r) (x_of v + sign_x r))
        c (c + inc_x r) (c + inc_y r) az) \<and>
    (c < az \<and> amax r \<le> c \<longrightarrow>
      trace_loop r lor v a c c az =
      Some (lor @ [(v, c - a)],
            CartesianCoordinate3D (z_of v) (y_of v + sign_y r) (x_of v),
            c, c, c + inc_y r, az)) \<and>
    (c < ay \<and> c < amax r \<longrightarrow>
      trace_loop r lor v a c ay c =
      trace_loop r
        (lor @ [(v, c - a),
                (CartesianCoordinate3D (z_of v + sign_z r) (y_of v) (x_of v), 0)])
        (CartesianCoordinate3D (z_of v + sign_z r) (y_of v) (x_of v + sign_x r))
        c (c + inc_x r) ay (c + inc_z r)) \<and>
    (c < ay \<and> amax r \<le> c \<longrightarrow>
      trace_loop r lor v a c ay c =
      Some (lor @ [(v, c - a)],
            CartesianCoordinate3D (z_of v + sign_z r) (y_of v) (x_of v),
            c, c, ay, c + inc_z r)) \<and>
    (c < ax \<and> c < amax r \<longrightarrow>
      trace_loop r lor v a ax c c =
      trace_loop r
        (lor @ [(v, c - a),
                (CartesianCoordinate3D (z_of v + sign_z r) (y_of v) (x_of v), 0)])
        (CartesianCoordinate3D (z_of v + sign_z r) (y_of v + sign_y r) (x_of v))
        c ax (c + inc_y r) (c + inc_z r)) \<and>
    (c < ax \<and> amax r \<le> c \<longrightarrow>
      trace_loop r lor v a ax c c =
      Some (lor @ [(v, c - a)],
            CartesianCoordinate3D (z_of v + sign_z r) (y_of v) (x_of v),
            c, ax, c, c + inc_z r)) \<and>
    (c < amax r \<longrightarrow>
      trace_loop r lor v a c c c =
      trace_loop r
        (lor @ [(v, c - a),
                (CartesianCoordinate3D (z_of v + sign_z r) (y_of v) (x_of v), 0),
                (CartesianCoordinate3D (z_of v + sign_z r) (y_of v + sign_y r) (x_of v), 0)])
        (CartesianCoordinate3D (z_of v + sign_z r) (y_of v + sign_y r) (x_of v + sign_x r))
        c (c + inc_x r) (c + inc_y r) (c + inc_z r)) \<and>
    (amax r \<le> c \<longrightarrow>
      trace_loop r lor v a c c c =
      Some (lor @ [(v, c - a)],
            CartesianCoordinate3D (z_of v + sign_z r) (y_of v) (x_of v),
            c, c, c, c + inc_z r))"
  using assms
  by (intro conjI impI;
      (subst trace_loop.simps, simp, subst trace_loop.simps, simp, (subst trace_loop.simps, simp)?))

text \<open>
  Witness for C5: the constants of the diagonal segment from \<open>(0, 0, 0)\<close> to
  \<open>(y, x) = (2, 2)\<close> with voxel size \<open>(1, 4, 3)\<close>, where \<open>amax\<close> is 12.49875 and the
  increments are 5, 5 and ten million.  Crossings tied at 2.5, below \<open>amax\<close>, give two
  or three entries; crossings tied at 12.5, not below \<open>amax\<close>, give one entry and the
  loop stops.
\<close>

theorem tie_break_order_witness:
  "- 5/2 < amax (ray_constants (CartesianCoordinate3D 0 0 0) (CartesianCoordinate3D 0 2 2)
        (CartesianCoordinate3D 1 4 3) 1)
   \<and> 15/2 < amax (ray_constants (CartesianCoordinate3D 0 0 0) (CartesianCoordinate3D 0 2 2)
        (CartesianCoordinate3D 1 4 3) 1)
   \<and> 5/2 < amax (ray_constants (CartesianCoordinate3D 0 0 0) (CartesianCoordinate3D 0 2 2)
        (CartesianCoordinate3D 1 4 3) 1)
   \<and> amax (ray_constants (CartesianCoordinate3D 0 0 0) (CartesianCoordinate3D 0 2 2)
        (CartesianCoordinate3D 1 4 3) 1) \<le> 25/2
   \<and> 0 < inc_x (ray_constants (CartesianCoordinate3D 0 0 0) (CartesianCoordinate3D 0 2 2)
        (CartesianCoordinate3D 1 4 3) 1)
   \<and> 0 < inc_y (ray_constants (CartesianCoordinate3D 0 0 0) (CartesianCoordinate3D 0 2 2)
        (CartesianCoordinate3D 1 4 3) 1)
   \<and> 0 < inc_z (ray_constants (CartesianCoordinate3D 0 0 0) (CartesianCoordinate3D 0 2 2)
        (CartesianCoordinate3D 1 4 3) 1)
   \<and> (5/2 :: real) < 10
   \<and> (25/2 :: real) < 20
   \<and> trace_loop (ray_constants (CartesianCoordinate3D 0 0 0) (CartesianCoordinate3D 0 2 2)
        (CartesianCoordinate3D 1 4 3) 1)
         [] (CartesianCoordinate3D 0 0 0) (- 5/2) (5/2) (5/2) 10 =
       trace_loop (ray_constants (CartesianCoordinate3D 0 0 0) (CartesianCoordinate3D 0 2 2)
        (CartesianCoordinate3D 1 4 3) 1)
         [(CartesianCoordinate3D 0 0 0, 5), (CartesianCoordinate3D 0 1 0, 0)]
         (CartesianCoordinate3D 0 1 1) (5/2) (15/2) (15/2) 10
   \<and> trace_loop (ray_constants (CartesianCoordinate3D 0 0 0) (CartesianCoordinate3D 0 2 2)
        (CartesianCoordinate3D 1 4 3) 1)
         [] (CartesianCoordinate3D 0 0 0) (15/2) (25/2) (25/2) 20 =
       Some ([(CartesianCoordinate3D 0 0 0, 5)], CartesianCoordinate3D 0 1 0, 25/2, 25/2, 35/2, 20)
   \<and> trace_loop (ray_constants (CartesianCoordinate3D 0 0 0) (CartesianCoordinate3D 0 2 2)
        (CartesianCoordinate3D 1 4 3) 1)
         [] (CartesianCoordinate3D 0 0 0) (- 5/2) (5/2) 10 (5/2) =
       trace_loop (ray_constants (CartesianCoordinate3D 0 0 0) (CartesianCoordinate3D 0 2 2)
        (CartesianCoordinate3D 1 4 3) 1)
         [(CartesianCoordinate3D 0 0 0, 5), (CartesianCoordinate3D 1 0 0, 0)]
         (CartesianCoordinate3D 1 0 1) (5/2) (15/2) 10 (20000005/2)
   \<and> trace_loop (ray_constants (CartesianCoordinate3D 0 0 0) (CartesianCoordinate3D 0 2 2)
        (CartesianCoordinate3D 1 4 3) 1)
         [] (CartesianCoordinate3D 0 0 0) (15/2) (25/2) 20 (25/2) =
       Some ([(CartesianCoordinate3D 0 0 0, 5)], CartesianCoordinate3D 1 0 0, 25/2, 25/2, 20, 20000025/2)
   \<and> trace_loop (ray_constants (CartesianCoordinate3D 0 0 0) (CartesianCoordinate3D 0 2 2)
        (CartesianCoordinate3D 1 4 3) 1)
         [] (CartesianCoordinate3D 0 0 0) (- 5/2) 10 (5/2) (5/2) =
       trace_loop (ray_constants (CartesianCoordinate3D 0 0 0) (CartesianCoordinate3D 0 2 2)
        (CartesianCoordinate3D 1 4 3) 1)
         [(CartesianCoordinate3D 0 0 0, 5), (CartesianCoordinate3D 1 0 0, 0)]
         (CartesianCoordinate3D 1 1 0) (5/2) 10 (15/2) (20000005/2)
   \<and> trace_loop (ray_constants (CartesianCoordinate3D 0 0 0) (CartesianCoordinate3D 0 2 2)
        (CartesianCoordinate3D 1 4 3) 1)
         [] (CartesianCoordinate3D 0 0 0) (15/2) 20 (25/2) (25/2) =
       Some ([(CartesianCoordinate3D 0 0 0, 5)], CartesianCoordinate3D 1 0 0, 25/2, 20, 25/2, 20000025/2)
   \<and> trace_loop (ray_constants (CartesianCoordinate3D 0 0 0) (CartesianCoordinate3D 0 2 2)
        (CartesianCoordinate3D 1 4 3) 1)
         [] (CartesianCoordinate3D 0 0 0) (- 5/2) (5/2) (5/2) (5/2) =
       trace_loop (ray_constants (CartesianCoordinate3D 0 0 0) (CartesianCoordinate3D 0 2 2)
        (CartesianCoordinate3D 1 4 3) 1)
         [(CartesianCoordinate3D 0 0 0, 5), (CartesianCoordinate3D 1 0 0, 0),
          (CartesianCoordinate3D 1 1 0, 0)]
         (CartesianCoordinate3D 1 1 1) (5/2) (15/2) (15/2) (20000005/2)
   \<and> trace_loop (ray_constants (CartesianCoordinate3D 0 0 0) (CartesianCoordinate3D 0 2 2)
        (CartesianCoordinate3D 1 4 3) 1)
         [] (CartesianCoordinate3D 0 0 0) (15/2) (25/2) (25/2) (25/2) =
       Some ([(CartesianCoordinate3D 0 0 0, 5)], CartesianCoordinate3D 1 0 0, 25/2, 25/2, 25/2, 20000025/2)"
proof -
  let ?r = "ray_constants (CartesianCoordinate3D 0 0 0) (CartesianCoordinate3D 0 2 2)
        (CartesianCoordinate3D 1 4 3) 1"
  have h: "- 5/2 < amax ?r" "15/2 < amax ?r" "5/2 < amax ?r" "amax ?r \<le> 25/2"
    by (simp_all add: ray_simps coord_minus_def coord_times_def coord_norm_def sqrt_100
        round_simps small_difference_def)
  have incs: "0 < inc_x ?r" "0 < inc_y ?r" "0 < inc_z ?r"
    by (simp_all add: ray_simps coord_minus_def coord_times_def coord_norm_def sqrt_100
        small_difference_def)
  have vals: "sign_x ?r = 1" "sign_y ?r = 1" "sign_z ?r = 1"
    "inc_x ?r = 5" "inc_y ?r = 5" "inc_z ?r = 10000000"
    by (simp_all add: ray_simps coord_minus_def coord_times_def coord_norm_def sqrt_100
        small_difference_def)
  have c: "(5/2 :: real) < 10" "(25/2 :: real) < 20" by simp_all
  from tie_break_order [where r = ?r and a = "- 5/2" and c = "5/2" and ax = 10 and ay = 10
      and az = 10 and lor = "[]" and v = "CartesianCoordinate3D 0 0 0", OF h(1) incs] h(3)
  have below: "trace_loop ?r
         [] (CartesianCoordinate3D 0 0 0) (- 5/2) (5/2) (5/2) 10 =
       trace_loop ?r
         [(CartesianCoordinate3D 0 0 0, 5), (CartesianCoordinate3D 0 1 0, 0)]
         (CartesianCoordinate3D 0 1 1) (5/2) (15/2) (15/2) 10
   \<and> trace_loop ?r
         [] (CartesianCoordinate3D 0 0 0) (- 5/2) (5/2) 10 (5/2) =
       trace_loop ?r
         [(CartesianCoordinate3D 0 0 0, 5), (CartesianCoordinate3D 1 0 0, 0)]
         (CartesianCoordinate3D 1 0 1) (5/2) (15/2) 10 (20000005/2)
   \<and> trace_loop ?r
         [] (CartesianCoordinate3D 0 0 0) (- 5/2) 10 (5/2) (5/2) =
       trace_loop ?r
         [(CartesianCoordinate3D 0 0 0, 5), (CartesianCoordinate3D 1 0 0, 0)]
         (CartesianCoordinate3D 1 1 0) (5/2) 10 (15/2) (20000005/2)
   \<and> trace_loop ?r
         [] (CartesianCoordinate3D 0 0 0) (- 5/2) (5/2) (5/2) (5/2) =
       trace_loop ?r
         [(CartesianCoordinate3D 0 0 0, 5), (CartesianCoordinate3D 1 0 0, 0),
          (CartesianCoordinate3D 1 1 0, 0)]
         (CartesianCoordinate3D 1 1 1) (5/2) (15/2) (15/2) (20000005/2)"
    by (simp add: vals)
  from tie_break_order [where r = ?r and a = "15/2" and c = "25/2" and ax = 20 and ay = 20
      and az = 20 and lor = "[]" and v = "CartesianCoordinate3D 0 0 0", OF h(2) incs] h(4)
  have beyond: "trace_loop ?r
         [] (CartesianCoordinate3D 0 0 0) (15/2) (25/2) (25/2) 20 =
       Some ([(CartesianCoordinate3D 0 0 0, 5)], CartesianCoordinate3D 0 1 0, 25/2, 25/2, 35/2, 20)
   \<and> trace_loop ?r
         [] (CartesianCoordinate3D 0 0 0) (15/2) (25/2) 20 (25/2) =
       Some ([(CartesianCoordinate3D 0 0 0, 5)], CartesianCoordinate3D 1 0 0, 25/2, 25/2, 20, 20000025/2)
   \<and> trace_loop ?r
         [] (CartesianCoordinate3D 0 0 0) (15/2) 20 (25/2) (25/2) =
       Some ([(CartesianCoordinate3D 0 0 0, 5)], CartesianCoordinate3D 1 0 0, 25/2, 20, 25/2, 20000025/2)
   \<and> trace_loop ?r
         [] (CartesianCoordinate3D 0 0 0) (15/2) (25/2) (25/2) (25/2) =
       Some ([(CartesianCoordinate3D 0 0 0, 5)], CartesianCoordinate3D 1 0 0, 25/2, 25/2, 25/2, 20000025/2)"
    by (simp add: vals)
  from h incs c below beyond show ?thesis by blast
qed

section \<open>The first and the last entry\<close>




end
